theory Spec2Isabelle
  imports Complex_Main "HOL-Library.Word"
begin

section \<open>LoyOpt: a command line option parser\<close>

text \<open>
  A shallow embedding of \<^verbatim>\<open>LoyOpt.h\<close>: the option descriptor (\<^verbatim>\<open>OptionBase\<close> and
  \<^verbatim>\<open>Option<T>\<close>), the tokenizer in the constructor of \<^verbatim>\<open>OptionParser\<close>, the matching
  scan \<^verbatim>\<open>OptionParser::Parse\<close> and the two queries on unparsed arguments.

  A \<^typ>\<open>string\<close> stands for the content of a NUL-terminated character array or of a
  \<^verbatim>\<open>std::string\<close> built from one, so it holds no NUL character and \<^verbatim>\<open>strlen\<close> is
  \<^const>\<open>length\<close>.
\<close>

subsection \<open>Tokens and the parser state\<close>

text \<open>\<^verbatim>\<open>using Arg = pair<bool, string>\<close>: the flag is true once the argument has been dealt with.\<close>

type_synonym Arg = "bool \<times> string"

record OptionParser =
  args :: "Arg list"
  exec_name :: string

datatype error =
  OutOfRange          \<comment> \<open>\<^verbatim>\<open>args[0]\<close> of an empty vector (undefined behaviour in the source)\<close>
  | BadVariantAccess  \<comment> \<open>\<^verbatim>\<open>std::get<T>\<close> on a variant that holds another alternative\<close>
  | NotInstantiated   \<comment> \<open>a template instance that \<^verbatim>\<open>Parse\<close> never calls, left out of the model\<close>

subsection \<open>The constructor of the parser\<close>

text \<open>
  The test of lines 437 to 439 on one \<^verbatim>\<open>argv[i]\<close>. The conjunction of the source is
  evaluated left to right, so \<^verbatim>\<open>argv[i][1]\<close> is only read when the length is at least 3.
\<close>

definition is_digit :: "char \<Rightarrow> bool" where
  "is_digit c \<longleftrightarrow> (48::nat) \<le> of_char c \<and> of_char c \<le> (57::nat)"

definition is_merged :: "string \<Rightarrow> bool" where
  "is_merged s =
     (case s of
        c0 # c1 # c2 # rest \<Rightarrow>
          c0 = CHR ''-'' \<and> c1 \<noteq> CHR ''-'' \<and> c1 \<noteq> CHR ''.'' \<and> \<not> is_digit c1
      | _ \<Rightarrow> False)"

text \<open>The inner loop over \<^verbatim>\<open>j\<close>: one pushed token per character, each made of \<^verbatim>\<open>'-'\<close> and it.\<close>

primrec push_chars :: "string \<Rightarrow> Arg list \<Rightarrow> Arg list" where
  "push_chars [] acc = acc"
| "push_chars (c # cs) acc = push_chars cs (acc @ [(False, [CHR ''-'', c])])"

text \<open>The outer loop over \<^verbatim>\<open>i\<close>, from 0 to \<^verbatim>\<open>argc - 1\<close>.\<close>

primrec tokenize :: "string list \<Rightarrow> Arg list \<Rightarrow> Arg list" where
  "tokenize [] acc = acc"
| "tokenize (a # as) acc =
     tokenize as (if is_merged a then push_chars (tl a) acc else acc @ [(False, a)])"

text \<open>
  \<^verbatim>\<open>get_exec_name\<close>: the index runs down from the last character to the first path separator;
  the function returns \<^verbatim>\<open>i + 1\<close>, the start of the substring that is kept.
\<close>

primrec find_sep :: "string \<Rightarrow> nat \<Rightarrow> nat" where
  "find_sep s 0 = 0"
| "find_sep s (Suc i) =
     (if s ! i = CHR ''/'' \<or> s ! i = CHR 0x5C then Suc i else find_sep s i)"

definition get_exec_name :: "Arg list \<Rightarrow> string" where
  "get_exec_name ts = (let s = snd (ts ! 0) in drop (find_sep s (length s)) s)"

definition new_OptionParser :: "string list \<Rightarrow> error + OptionParser" where
  "new_OptionParser argv =
     (case tokenize argv [] of
        [] \<Rightarrow> Inl OutOfRange
      | a # as \<Rightarrow>
          (let ts = (True, snd a) # as
           in Inr \<lparr>args = ts, exec_name = get_exec_name ts\<rparr>))"

subsection \<open>Values and option descriptors\<close>

datatype Status =
  NotParsed | NotFound | ValueInvalid | ValueNotFound | ClampedMax | ClampedMin | Parsed

text \<open>
  The value of a \<^verbatim>\<open>float\<close> or a \<^verbatim>\<open>double\<close>: not a number, an infinity or a finite
  number. The sign of zero is left out: the comparisons of the source do not see it.
  Every \<^verbatim>\<open>float\<close> is a \<^verbatim>\<open>double\<close>, so widening is the identity.
\<close>

datatype fp = NaN | NegInf | Fin rat | PosInf

fun fp_less :: "fp \<Rightarrow> fp \<Rightarrow> bool" where
  "fp_less NaN y = False"
| "fp_less x NaN = False"
| "fp_less x NegInf = False"
| "fp_less NegInf y = True"
| "fp_less PosInf y = False"
| "fp_less (Fin a) PosInf = True"
| "fp_less (Fin a) (Fin b) = (a < b)"

definition fp_le :: "fp \<Rightarrow> fp \<Rightarrow> bool" where
  "fp_le x y \<longleftrightarrow> fp_less x y \<or> (x = y \<and> x \<noteq> NaN)"

definition isnan :: "fp \<Rightarrow> bool" where
  "isnan x \<longleftrightarrow> x = NaN"

text \<open>\<^verbatim>\<open>using Val = variant<bool, string, int32_t, uint32_t, int64_t, float, double>\<close>\<close>

datatype Val =
  VBool bool | VString string | VInt32 "32 word" | VUInt32 "32 word" | VInt64 "64 word"
  | VFloat fp | VDouble fp

primrec index :: "Val \<Rightarrow> nat" where
  "index (VBool b) = 0"
| "index (VString s) = 1"
| "index (VInt32 w) = 2"
| "index (VUInt32 w) = 3"
| "index (VInt64 w) = 4"
| "index (VFloat x) = 5"
| "index (VDouble x) = 6"

text \<open>\<^verbatim>\<open>std::get<T>\<close>, which throws when the variant holds another alternative.\<close>

fun get_int32 :: "Val \<Rightarrow> 32 word option" where
  "get_int32 (VInt32 w) = Some w"
| "get_int32 v = None"

fun get_uint32 :: "Val \<Rightarrow> 32 word option" where
  "get_uint32 (VUInt32 w) = Some w"
| "get_uint32 v = None"

fun get_int64 :: "Val \<Rightarrow> 64 word option" where
  "get_int64 (VInt64 w) = Some w"
| "get_int64 v = None"

fun get_float :: "Val \<Rightarrow> fp option" where
  "get_float (VFloat x) = Some x"
| "get_float v = None"

fun get_double :: "Val \<Rightarrow> fp option" where
  "get_double (VDouble x) = Some x"
| "get_double v = None"

text \<open>
  \<^verbatim>\<open>matched_name\<close> points to the empty string \<^verbatim>\<open>sts_str[7]\<close>, to \<^verbatim>\<open>name\<close> or to
  \<^verbatim>\<open>alt_name\<close>.
\<close>

datatype Matched = NoName | Name | AltName

text \<open>
  The fields of \<^verbatim>\<open>OptionBase\<close> (without the help lines, which the parser never reads).
  The fields \<^verbatim>\<open>value\<close>, \<^verbatim>\<open>min\<close> and \<^verbatim>\<open>max\<close> are \<open>opt_value\<close>, \<open>opt_min\<close> and \<open>opt_max\<close>.
\<close>

record OptionBase =
  status :: Status
  name :: string
  alt_name :: string
  matched_name :: Matched
  base :: int
  default_val :: Val
  opt_value :: Val
  opt_min :: Val
  opt_max :: Val

definition GetLastMatchedName :: "OptionBase \<Rightarrow> string" where
  "GetLastMatchedName opt =
     (case matched_name opt of NoName \<Rightarrow> [] | Name \<Rightarrow> name opt | AltName \<Rightarrow> alt_name opt)"

definition IsNameExist :: "OptionBase \<Rightarrow> bool" where
  "IsNameExist opt \<longleftrightarrow> status opt \<noteq> NotParsed \<and> status opt \<noteq> NotFound"

definition IsValueUpdated :: "OptionBase \<Rightarrow> bool" where
  "IsValueUpdated opt \<longleftrightarrow>
     status opt = Parsed \<or> status opt = ClampedMax \<or> status opt = ClampedMin"

subsection \<open>The constructors of \<^verbatim>\<open>Option<T>\<close>\<close>

text \<open>
  \<^verbatim>\<open>numeric_limits<T>::lowest()\<close> and \<^verbatim>\<open>numeric_limits<T>::max()\<close> for the kind of a value.
  \<^verbatim>\<open>numeric_limits\<close> is not specialised for \<^verbatim>\<open>string\<close> and returns \<^verbatim>\<open>string()\<close> there.
\<close>

primrec limits_lowest :: "Val \<Rightarrow> Val" where
  "limits_lowest (VBool b) = VBool False"
| "limits_lowest (VString s) = VString []"
| "limits_lowest (VInt32 w) = VInt32 (- (2 ^ 31))"
| "limits_lowest (VUInt32 w) = VUInt32 0"
| "limits_lowest (VInt64 w) = VInt64 (- (2 ^ 63))"
| "limits_lowest (VFloat x) = VFloat (Fin (- (2 ^ 128 - 2 ^ 104)))"
| "limits_lowest (VDouble x) = VDouble (Fin (- (2 ^ 1024 - 2 ^ 971)))"

primrec limits_max :: "Val \<Rightarrow> Val" where
  "limits_max (VBool b) = VBool True"
| "limits_max (VString s) = VString []"
| "limits_max (VInt32 w) = VInt32 (2 ^ 31 - 1)"
| "limits_max (VUInt32 w) = VUInt32 (2 ^ 32 - 1)"
| "limits_max (VInt64 w) = VInt64 (2 ^ 63 - 1)"
| "limits_max (VFloat x) = VFloat (Fin (2 ^ 128 - 2 ^ 104))"
| "limits_max (VDouble x) = VDouble (Fin (2 ^ 1024 - 2 ^ 971))"

text \<open>\<^verbatim>\<open>Option(name, alt_name)\<close>, for \<^verbatim>\<open>T = bool\<close> only.\<close>

definition Option_bool :: "string \<Rightarrow> string \<Rightarrow> OptionBase" where
  "Option_bool nm alt =
     \<lparr>status = NotParsed, name = nm, alt_name = alt, matched_name = NoName, base = 10,
      default_val = VBool False, opt_value = VBool False,
      opt_min = limits_lowest (VBool False), opt_max = limits_max (VBool False)\<rparr>"

text \<open>
  The four other constructors. The template parameter makes \<open>d\<close>, \<open>mn\<close> and \<open>mx\<close> values
  of one kind \<^verbatim>\<open>T\<close>: any kind but \<^verbatim>\<open>bool\<close> for the first, an integer or floating kind for
  those that take a base or a range.
\<close>

definition Option_default :: "Val \<Rightarrow> string \<Rightarrow> string \<Rightarrow> OptionBase" where
  "Option_default d nm alt =
     \<lparr>status = NotParsed, name = nm, alt_name = alt, matched_name = NoName, base = 10,
      default_val = d, opt_value = d, opt_min = limits_lowest d, opt_max = limits_max d\<rparr>"

definition Option_range :: "Val \<Rightarrow> Val \<Rightarrow> Val \<Rightarrow> string \<Rightarrow> string \<Rightarrow> OptionBase" where
  "Option_range d mn mx nm alt =
     \<lparr>status = NotParsed, name = nm, alt_name = alt, matched_name = NoName, base = 10,
      default_val = d, opt_value = d, opt_min = mn, opt_max = mx\<rparr>"

definition clamp_base :: "int \<Rightarrow> int" where
  "clamp_base b = (if b < 2 then 2 else if b > 36 then 36 else b)"

definition Option_base :: "Val \<Rightarrow> int \<Rightarrow> string \<Rightarrow> string \<Rightarrow> OptionBase" where
  "Option_base d b nm alt =
     \<lparr>status = NotParsed, name = nm, alt_name = alt, matched_name = NoName,
      base = clamp_base b,
      default_val = d, opt_value = d, opt_min = limits_lowest d, opt_max = limits_max d\<rparr>"

definition Option_base_range ::
  "Val \<Rightarrow> int \<Rightarrow> Val \<Rightarrow> Val \<Rightarrow> string \<Rightarrow> string \<Rightarrow> OptionBase" where
  "Option_base_range d b mn mx nm alt =
     \<lparr>status = NotParsed, name = nm, alt_name = alt, matched_name = NoName,
      base = clamp_base b,
      default_val = d, opt_value = d, opt_min = mn, opt_max = mx\<rparr>"

text \<open>
  What the constructors establish and no member function breaks: the value and the two
  bounds hold the same alternative, and the base is between 2 and 36.
\<close>

definition wf_opt :: "OptionBase \<Rightarrow> bool" where
  "wf_opt opt \<longleftrightarrow>
     index (opt_min opt) = index (opt_value opt) \<and>
     index (opt_max opt) = index (opt_value opt) \<and>
     2 \<le> base opt \<and> base opt \<le> 36"

subsection \<open>Clamping\<close>

text \<open>
  \<^verbatim>\<open>clamp<U, T>(val, min, max)\<close> sets the status and returns the value to store. The two
  comparisons and the conditional expression are evaluated in the common type of \<^verbatim>\<open>U\<close>
  and \<^verbatim>\<open>T\<close>; the caller converts the operands to it and the result to \<^verbatim>\<open>T\<close>. For
  \<^verbatim>\<open>U = int64_t\<close> and an integer \<^verbatim>\<open>T\<close> the common type is \<^verbatim>\<open>int64_t\<close>, which holds every
  \<^verbatim>\<open>int32_t\<close> and \<^verbatim>\<open>uint32_t\<close>, so the operands are compared as integers; for
  \<^verbatim>\<open>U = double\<close> and a floating \<^verbatim>\<open>T\<close> it is \<^verbatim>\<open>double\<close>.
\<close>

definition clamp :: "('a \<Rightarrow> 'a \<Rightarrow> bool) \<Rightarrow> 'a \<Rightarrow> 'a \<Rightarrow> 'a \<Rightarrow> Status \<times> 'a" where
  "clamp lt v mn mx =
     (if lt v mn then ClampedMin else if lt mx v then ClampedMax else Parsed,
      if lt v mn then mn else if lt mx v then mx else v)"

text \<open>
  The argument of \<^verbatim>\<open>update_numeric_value_n_status<T>\<close>: the template is instantiated with
  \<^verbatim>\<open>bool\<close>, \<^verbatim>\<open>int64_t\<close> and \<^verbatim>\<open>double\<close>.
\<close>

datatype Num = NBool bool | NInt64 "64 word" | NDouble fp

primrec val_of_num :: "Num \<Rightarrow> Val" where
  "val_of_num (NBool b) = VBool b"
| "val_of_num (NInt64 w) = VInt64 w"
| "val_of_num (NDouble x) = VDouble x"

text \<open>
  \<^verbatim>\<open>update_numeric_value_n_status\<close>. The first argument is the conversion from \<^verbatim>\<open>double\<close>
  to \<^verbatim>\<open>float\<close> of the platform. \<^verbatim>\<open>Parse\<close> calls the instance for \<^verbatim>\<open>bool\<close> on a \<^verbatim>\<open>bool\<close>
  descriptor, the one for \<^verbatim>\<open>int64_t\<close> on the three integer kinds and the one for \<^verbatim>\<open>double\<close>
  on the two floating kinds; an integer argument clamped against floating bounds and a
  floating or \<^verbatim>\<open>bool\<close> argument clamped against numeric bounds are never executed and are
  not modelled.
\<close>

definition update_numeric_value_n_status ::
  "(fp \<Rightarrow> fp) \<Rightarrow> Num \<Rightarrow> OptionBase \<Rightarrow> error + OptionBase" where
  "update_numeric_value_n_status to_flt val opt =
     (case opt_value opt of
        VInt32 w \<Rightarrow>
          (case (get_int32 (opt_min opt), get_int32 (opt_max opt)) of
             (Some mn, Some mx) \<Rightarrow>
               (case val of
                  NInt64 v \<Rightarrow>
                    (let (st, r) = clamp (<) (sint v) (sint mn) (sint mx)
                     in Inr (opt\<lparr>opt_value := VInt32 (of_int r), status := st\<rparr>))
                | _ \<Rightarrow> Inl NotInstantiated)
           | _ \<Rightarrow> Inl BadVariantAccess)
      | VUInt32 w \<Rightarrow>
          (case (get_uint32 (opt_min opt), get_uint32 (opt_max opt)) of
             (Some mn, Some mx) \<Rightarrow>
               (case val of
                  NInt64 v \<Rightarrow>
                    (let (st, r) = clamp (<) (sint v) (uint mn) (uint mx)
                     in Inr (opt\<lparr>opt_value := VUInt32 (of_int r), status := st\<rparr>))
                | _ \<Rightarrow> Inl NotInstantiated)
           | _ \<Rightarrow> Inl BadVariantAccess)
      | VInt64 w \<Rightarrow>
          (case (get_int64 (opt_min opt), get_int64 (opt_max opt)) of
             (Some mn, Some mx) \<Rightarrow>
               (case val of
                  NInt64 v \<Rightarrow>
                    (let (st, r) = clamp (<) (sint v) (sint mn) (sint mx)
                     in Inr (opt\<lparr>opt_value := VInt64 (of_int r), status := st\<rparr>))
                | _ \<Rightarrow> Inl NotInstantiated)
           | _ \<Rightarrow> Inl BadVariantAccess)
      | VFloat x \<Rightarrow>
          (case (get_float (opt_min opt), get_float (opt_max opt)) of
             (Some mn, Some mx) \<Rightarrow>
               (case val of
                  NDouble v \<Rightarrow>
                    (let (st, r) = clamp fp_less v mn mx
                     in Inr (opt\<lparr>opt_value := VFloat (to_flt r), status := st\<rparr>))
                | _ \<Rightarrow> Inl NotInstantiated)
           | _ \<Rightarrow> Inl BadVariantAccess)
      | VDouble x \<Rightarrow>
          (case (get_double (opt_min opt), get_double (opt_max opt)) of
             (Some mn, Some mx) \<Rightarrow>
               (case val of
                  NDouble v \<Rightarrow>
                    (let (st, r) = clamp fp_less v mn mx
                     in Inr (opt\<lparr>opt_value := VDouble r, status := st\<rparr>))
                | _ \<Rightarrow> Inl NotInstantiated)
           | _ \<Rightarrow> Inl BadVariantAccess)
      | _ \<Rightarrow> Inr (opt\<lparr>opt_value := val_of_num val, status := Parsed\<rparr>))"

subsection \<open>The conversions of the C library\<close>

text \<open>
  \<^verbatim>\<open>strtoll(nptr, &endptr, base)\<close> as the C standard (C17) specifies it in the C locale, for a
  base between 2 and 36, which is what a descriptor holds: white space is skipped, then an
  optional sign, then for base 16 an optional \<^verbatim>\<open>0x\<close> or \<^verbatim>\<open>0X\<close> that a hexadecimal digit
  follows, then the longest run of digits of the base. The result is the value, brought
  to \<^verbatim>\<open>LLONG_MIN\<close> or \<^verbatim>\<open>LLONG_MAX\<close> when it is out of range, and the number of characters
  up to \<^verbatim>\<open>endptr\<close>. When there is no digit, no conversion is performed: the value is 0
  and \<^verbatim>\<open>endptr\<close> is \<^verbatim>\<open>nptr\<close>.
\<close>

definition isspace :: "char \<Rightarrow> bool" where
  "isspace c \<longleftrightarrow> c = CHR '' '' \<or> ((9::nat) \<le> of_char c \<and> of_char c \<le> (13::nat))"

definition digit_of :: "char \<Rightarrow> nat option" where
  "digit_of c =
     (let n = (of_char c :: nat)
      in if 48 \<le> n \<and> n \<le> 57 then Some (n - 48)
         else if 97 \<le> n \<and> n \<le> 122 then Some (n - 87)
         else if 65 \<le> n \<and> n \<le> 90 then Some (n - 55)
         else None)"

fun scan_digits :: "int \<Rightarrow> string \<Rightarrow> int \<Rightarrow> nat \<Rightarrow> int \<times> nat" where
  "scan_digits b [] acc n = (acc, n)"
| "scan_digits b (c # cs) acc n =
     (case digit_of c of
        Some d \<Rightarrow> if int d < b then scan_digits b cs (acc * b + int d) (Suc n) else (acc, n)
      | None \<Rightarrow> (acc, n))"

definition has_hex_prefix :: "string \<Rightarrow> bool" where
  "has_hex_prefix s =
     (case s of
        c0 # c1 # c2 # rest \<Rightarrow>
          c0 = CHR ''0'' \<and> (c1 = CHR ''x'' \<or> c1 = CHR ''X'') \<and>
          (case digit_of c2 of Some d \<Rightarrow> d < 16 | None \<Rightarrow> False)
      | _ \<Rightarrow> False)"

definition saturate :: "int \<Rightarrow> 64 word" where
  "saturate v =
     (if v < - (2 ^ 63) then of_int (- (2 ^ 63))
      else if 2 ^ 63 - 1 < v then of_int (2 ^ 63 - 1)
      else of_int v)"

definition strtoll :: "string \<Rightarrow> int \<Rightarrow> 64 word \<times> nat" where
  "strtoll s b =
     (let ws = takeWhile isspace s;
          s1 = dropWhile isspace s;
          neg = (case s1 of c # cs \<Rightarrow> c = CHR ''-'' | [] \<Rightarrow> False);
          sg = (case s1 of c # cs \<Rightarrow> if c = CHR ''-'' \<or> c = CHR ''+'' then 1 else 0
                | [] \<Rightarrow> (0::nat));
          s2 = drop sg s1;
          px = (if b = 16 \<and> has_hex_prefix s2 then 2 else (0::nat));
          (acc, n) = scan_digits b (drop px s2) 0 0
      in if n = 0 then (0, 0)
         else (saturate (if neg then - acc else acc), length ws + sg + px + n))"

text \<open>
  What the parser takes from the platform: \<^verbatim>\<open>strtod\<close>, as the value and the number of
  characters up to \<^verbatim>\<open>endptr\<close>, and the conversion from \<^verbatim>\<open>double\<close> to \<^verbatim>\<open>float\<close>.
\<close>

record platform =
  strtod :: "string \<Rightarrow> fp \<times> nat"
  to_float :: "fp \<Rightarrow> fp"

subsection \<open>Matching one descriptor against the token list\<close>

definition NameMatch :: "OptionBase \<Rightarrow> string \<Rightarrow> bool \<times> OptionBase" where
  "NameMatch opt nm =
     (if name opt = nm then (True, opt\<lparr>matched_name := Name\<rparr>)
      else if alt_name opt = nm then (True, opt\<lparr>matched_name := AltName\<rparr>)
      else (False, opt))"

definition deal_integer :: "platform \<Rightarrow> OptionBase \<Rightarrow> string \<Rightarrow> error + OptionBase" where
  "deal_integer pf opt val_str =
     (let (v, n) = strtoll val_str (base opt)
      in if n < length val_str then Inr (opt\<lparr>status := ValueInvalid\<rparr>)
         else update_numeric_value_n_status (to_float pf) (NInt64 v) opt)"

definition deal_floating :: "platform \<Rightarrow> OptionBase \<Rightarrow> string \<Rightarrow> error + OptionBase" where
  "deal_floating pf opt val_str =
     (let (v, n) = strtod pf val_str
      in if n < length val_str \<or> isnan v then Inr (opt\<lparr>status := ValueInvalid\<rparr>)
         else update_numeric_value_n_status (to_float pf) (NDouble v) opt)"

text \<open>Marking a token: \<^verbatim>\<open>a.first = true\<close> through a reference into \<^verbatim>\<open>args\<close>.\<close>

definition mark :: "nat \<Rightarrow> OptionParser \<Rightarrow> OptionParser" where
  "mark i p = p\<lparr>args := (args p)[i := (True, snd (args p ! i))]\<rparr>"

text \<open>
  The body of \<^verbatim>\<open>if(opt.NameMatch(a.second))\<close> in \<^verbatim>\<open>Parse\<close>, at a token index \<open>i\<close> below
  the size; every path through it ends in \<^verbatim>\<open>break\<close>.
\<close>

definition Parse_matched ::
  "platform \<Rightarrow> OptionParser \<Rightarrow> OptionBase \<Rightarrow> nat \<Rightarrow> error + (OptionParser \<times> OptionBase)" where
  "Parse_matched pf p opt i =
     (let ty = index (opt_value opt); p1 = mark i p
      in if 0 = ty then
           map_sum id (Pair p1) (update_numeric_value_n_status (to_float pf) (NBool True) opt)
         else if i + 1 < length (args p1) then
           (let p2 = mark (i + 1) p1; v = snd (args p2 ! (i + 1))
            in if 1 = ty then Inr (p2, opt\<lparr>opt_value := VString v, status := Parsed\<rparr>)
               else if 2 \<le> ty \<and> ty \<le> 4 then map_sum id (Pair p2) (deal_integer pf opt v)
               else map_sum id (Pair p2) (deal_floating pf opt v))
         else Inr (p1, opt\<lparr>status := ValueNotFound\<rparr>))"

text \<open>The loop of \<^verbatim>\<open>Parse\<close>; it returns the index at which it stopped.\<close>

function Parse_loop ::
  "platform \<Rightarrow> OptionParser \<Rightarrow> OptionBase \<Rightarrow> nat
    \<Rightarrow> error + (nat \<times> OptionParser \<times> OptionBase)" where
  "Parse_loop pf p opt i =
     (if i < length (args p) then
        (case NameMatch opt (snd (args p ! i)) of
           (True, opt1) \<Rightarrow> map_sum id (Pair i) (Parse_matched pf p opt1 i)
         | (False, opt1) \<Rightarrow> Parse_loop pf p opt1 (i + 1))
      else Inr (i, p, opt))"
  by pat_completeness auto
termination
  by (relation "measure (\<lambda>(pf, p, opt, i). length (args p) - i)") auto

definition Parse ::
  "platform \<Rightarrow> OptionParser \<Rightarrow> OptionBase \<Rightarrow> error + (Status \<times> OptionParser \<times> OptionBase)" where
  "Parse pf p opt =
     (case Parse_loop pf p opt 0 of
        Inl e \<Rightarrow> Inl e
      | Inr (i, p1, opt1) \<Rightarrow>
          (let opt2 = (if i = length (args p1) then opt1\<lparr>status := NotFound\<rparr> else opt1)
           in Inr (status opt2, p1, opt2)))"

subsection \<open>Unparsed arguments\<close>

text \<open>
  Both are \<^verbatim>\<open>const\<close> member functions: they read \<^verbatim>\<open>args\<close> and return a result, so they are
  functions of the parser state that return no new state.
\<close>

primrec first_unparsed :: "Arg list \<Rightarrow> string" where
  "first_unparsed [] = []"
| "first_unparsed (a # as) = (if \<not> fst a then snd a else first_unparsed as)"

definition FirstUnparsedArg :: "OptionParser \<Rightarrow> string" where
  "FirstUnparsedArg p = first_unparsed (args p)"

primrec all_unparsed :: "Arg list \<Rightarrow> string list \<Rightarrow> string list" where
  "all_unparsed [] rtn = rtn"
| "all_unparsed (a # as) rtn = all_unparsed as (if \<not> fst a then rtn @ [snd a] else rtn)"

definition GetAllUnparsedArgs :: "OptionParser \<Rightarrow> string list" where
  "GetAllUnparsedArgs p = all_unparsed (args p) []"

subsection \<open>Notions used to state the properties\<close>

text \<open>The text of a token equals one of the two names; the flag of the token is not read.\<close>

definition name_matches :: "OptionBase \<Rightarrow> string \<Rightarrow> bool" where
  "name_matches opt s \<longleftrightarrow> name opt = s \<or> alt_name opt = s"

text \<open>Index \<open>i\<close> is the first one, in index order, whose text equals one of the two names.\<close>

definition match_point :: "OptionBase \<Rightarrow> Arg list \<Rightarrow> nat \<Rightarrow> bool" where
  "match_point opt ts i \<longleftrightarrow>
     i < length ts \<and> name_matches opt (snd (ts ! i)) \<and>
     list_all (\<lambda>a. \<not> name_matches opt (snd a)) (take i ts)"

text \<open>
  The number a value stands for; integers are exact. A string stands for no number.
\<close>

primrec val_num :: "Val \<Rightarrow> fp" where
  "val_num (VBool b) = Fin (if b then 1 else 0)"
| "val_num (VString s) = NaN"
| "val_num (VInt32 w) = Fin (of_int (sint w))"
| "val_num (VUInt32 w) = Fin (of_int (uint w))"
| "val_num (VInt64 w) = Fin (of_int (sint w))"
| "val_num (VFloat x) = x"
| "val_num (VDouble x) = x"

text \<open>
  The number that a value token converts to, when \<^verbatim>\<open>deal_integer\<close> (for the integer
  kinds) or \<^verbatim>\<open>deal_floating\<close> (for the floating kinds) accepts the conversion.
\<close>

definition converted :: "platform \<Rightarrow> OptionBase \<Rightarrow> string \<Rightarrow> fp option" where
  "converted pf opt s =
     (if index (opt_value opt) \<le> 4 then
        (let (v, n) = strtoll s (base opt)
         in if n < length s then None else Some (Fin (of_int (sint v))))
      else
        (let (v, n) = strtod pf s
         in if n < length s \<or> isnan v then None else Some v))"

text \<open>The value 0 of the kind of a value; for an integer kind, the integer 0.\<close>

primrec zero_of_kind :: "Val \<Rightarrow> Val" where
  "zero_of_kind (VBool b) = VBool False"
| "zero_of_kind (VString s) = VString []"
| "zero_of_kind (VInt32 w) = VInt32 0"
| "zero_of_kind (VUInt32 w) = VUInt32 0"
| "zero_of_kind (VInt64 w) = VInt64 0"
| "zero_of_kind (VFloat x) = VFloat (Fin 0)"
| "zero_of_kind (VDouble x) = VDouble (Fin 0)"

text \<open>The descriptor after \<^verbatim>\<open>NameMatch\<close>; only \<^verbatim>\<open>matched_name\<close> may differ.\<close>

definition matched_at :: "OptionBase \<Rightarrow> string \<Rightarrow> OptionBase" where
  "matched_at opt s = snd (NameMatch opt s)"

text \<open>What \<^verbatim>\<open>Parse\<close> returns once the loop has stopped at a match: \<^verbatim>\<open>return opt.status\<close>.\<close>

definition returned :: "OptionParser \<times> OptionBase \<Rightarrow> Status \<times> OptionParser \<times> OptionBase" where
  "returned r = (status (snd r), fst r, snd r)"

text \<open>
  A platform for the examples: an excerpt of \<^verbatim>\<open>strtod\<close>, which converts nothing but the
  literals listed, and a conversion to \<^verbatim>\<open>float\<close> that is exact on the values used.
\<close>

definition example_strtod :: "string \<Rightarrow> fp \<times> nat" where
  "example_strtod s =
     (if s = ''0.5'' then (Fin (1 / 2), 3)
      else if s = ''0.5x'' then (Fin (1 / 2), 3)
      else if s = ''250'' then (Fin 250, 3)
      else if s = ''nan'' then (NaN, 3)
      else (Fin 0, 0))"

definition example_platform :: platform where
  "example_platform = \<lparr>strtod = example_strtod, to_float = (\<lambda>x. x)\<rparr>"

text \<open>What one raw argument contributes to the token list.\<close>

definition expand :: "string \<Rightarrow> string list" where
  "expand a = (if is_merged a then map (\<lambda>c. [CHR ''-'', c]) (tl a) else [a])"

section \<open>Properties\<close>

subsection \<open>The tokenizer\<close>

lemma push_chars_eq: "push_chars cs acc = acc @ map (\<lambda>c. (False, [CHR ''-'', c])) cs"
  by (induction cs arbitrary: acc) simp_all

lemma tokenize_eq:
  "tokenize argv acc = acc @ map (Pair False) (concat (map expand argv))"
  by (induction argv arbitrary: acc) (simp_all add: push_chars_eq expand_def comp_def)

lemma expand_not_Nil: "expand a \<noteq> []"
  by (auto simp: expand_def is_merged_def split: list.splits)

lemma new_OptionParser_texts:
  assumes "argv \<noteq> []"
  shows "\<exists>p. new_OptionParser argv = Inr p \<and> map snd (args p) = concat (map expand argv)
           \<and> map fst (args p) = True # replicate (length (args p) - 1) False"
proof -
  obtain a as where argv: "argv = a # as"
    using assms by (cases argv) auto
  obtain t ts where t: "concat (map expand argv) = t # ts"
    using expand_not_Nil [of a] by (cases "expand a") (auto simp: argv)
  have tok: "tokenize argv [] = (False, t) # map (Pair False) ts"
    by (simp only: tokenize_eq t) simp
  have flags: "map (\<lambda>x. False) ts = replicate (length ts) False"
    by (induction ts) simp_all
  show ?thesis
    by (simp add: new_OptionParser_def tok t comp_def flags Let_def del: tokenize.simps)
qed

text \<open>
  C1. The splitting rule is applied to every raw argument, index 0 included: the loop of
  the constructor starts at \<^verbatim>\<open>i = 0\<close>. A program started under the name \<^verbatim>\<open>-abc\<close> has its
  name split into three tokens; token 0, which the source marks as the executable name,
  is \<^verbatim>\<open>-a\<close>, and so is the executable name that \<^verbatim>\<open>ExecName\<close> returns.
\<close>

theorem tokenizer_splits_index_0:
  "new_OptionParser [''-abc'', ''-x''] =
     Inr \<lparr>args = [(True, ''-a''), (False, ''-b''), (False, ''-c''), (False, ''-x'')],
          exec_name = ''-a''\<rparr>"
  by (simp add: new_OptionParser_def is_merged_def is_digit_def get_exec_name_def)

subsection \<open>The loop of the matching scan\<close>

declare Parse_loop.simps [simp del]

lemma NameMatch_no: "\<not> name_matches opt s \<Longrightarrow> NameMatch opt s = (False, opt)"
  by (simp add: NameMatch_def name_matches_def)

lemma NameMatch_yes: "name_matches opt s \<Longrightarrow> NameMatch opt s = (True, matched_at opt s)"
  by (auto simp: NameMatch_def name_matches_def matched_at_def)

lemma Parse_loop_skip:
  assumes "list_all (\<lambda>a. \<not> name_matches opt (snd a)) (take k (drop i (args p)))"
    and "i + k \<le> length (args p)"
  shows "Parse_loop pf p opt i = Parse_loop pf p opt (i + k)"
  using assms
proof (induction k arbitrary: i)
  case 0
  then show ?case by simp
next
  case (Suc k)
  then have True: "i < length (args p)" and le: "Suc i + k \<le> length (args p)"
    by simp_all
  show ?case
  proof -
    from True have d: "drop i (args p) = args p ! i # drop (Suc i) (args p)"
      by (simp add: Cons_nth_drop_Suc)
    from Suc.prems have no: "\<not> name_matches opt (snd (args p ! i))"
      and rest: "list_all (\<lambda>a. \<not> name_matches opt (snd a)) (take k (drop (Suc i) (args p)))"
      by (simp_all add: d)
    have "Parse_loop pf p opt i = Parse_loop pf p opt (Suc i)"
      by (subst Parse_loop.simps) (simp add: True NameMatch_no [OF no])
    also have "\<dots> = Parse_loop pf p opt (Suc i + k)"
      by (rule Suc.IH [OF rest le])
    finally show ?thesis by simp
  qed
qed

lemma Parse_loop_no_match:
  assumes "list_all (\<lambda>a. \<not> name_matches opt (snd a)) (args p)"
  shows "Parse_loop pf p opt 0 = Inr (length (args p), p, opt)"
proof -
  have "Parse_loop pf p opt 0 = Parse_loop pf p opt (0 + length (args p))"
    by (rule Parse_loop_skip) (simp_all add: assms)
  also have "\<dots> = Inr (length (args p), p, opt)"
    by (subst Parse_loop.simps) simp
  finally show ?thesis .
qed

lemma Parse_loop_match:
  assumes "match_point opt (args p) i"
  shows "Parse_loop pf p opt 0 =
           map_sum id (Pair i) (Parse_matched pf p (matched_at opt (snd (args p ! i))) i)"
proof -
  from assms have i: "i < length (args p)" and m: "name_matches opt (snd (args p ! i))"
    and before: "list_all (\<lambda>a. \<not> name_matches opt (snd a)) (take i (args p))"
    by (simp_all add: match_point_def)
  have "Parse_loop pf p opt 0 = Parse_loop pf p opt (0 + i)"
    using i by (intro Parse_loop_skip) (simp_all add: before)
  also have "\<dots> = map_sum id (Pair i) (Parse_matched pf p (matched_at opt (snd (args p ! i))) i)"
    by (subst Parse_loop.simps) (simp add: i NameMatch_yes [OF m])
  finally show ?thesis .
qed

lemma length_mark [simp]: "length (args (mark i p)) = length (args p)"
  by (simp add: mark_def)

lemma map_sum_id_Inr: "map_sum id f x = Inr y \<longleftrightarrow> (\<exists>z. x = Inr z \<and> y = f z)"
  by (cases x) auto

lemma Parse_matched_length:
  "Parse_matched pf p opt i = Inr (p1, opt1) \<Longrightarrow> length (args p1) = length (args p)"
  by (auto simp: Parse_matched_def Let_def map_sum_id_Inr split: if_splits)

lemma Parse_no_match:
  assumes "list_all (\<lambda>a. \<not> name_matches opt (snd a)) (args p)"
  shows "Parse pf p opt = Inr (NotFound, p, opt\<lparr>status := NotFound\<rparr>)"
  by (simp add: Parse_def Parse_loop_no_match [OF assms])

lemma Parse_match:
  assumes "match_point opt (args p) i"
  shows "Parse pf p opt =
           map_sum id returned (Parse_matched pf p (matched_at opt (snd (args p ! i))) i)"
proof (cases "Parse_matched pf p (matched_at opt (snd (args p ! i))) i")
  case (Inl e)
  then show ?thesis
    by (simp add: Parse_def Parse_loop_match [OF assms])
next
  case (Inr r)
  obtain p1 opt1 where r: "r = (p1, opt1)" by (cases r)
  from assms have "i < length (args p)" by (simp add: match_point_def)
  moreover have "length (args p1) = length (args p)"
    using Inr r by (auto dest: Parse_matched_length)
  ultimately show ?thesis
    by (simp add: Parse_def Parse_loop_match [OF assms] Inr r returned_def)
qed

subsection \<open>Status and totality of a match attempt\<close>

text \<open>Every constructor builds a descriptor whose value and bounds are of one kind.\<close>

lemma index_limits [simp]:
  "index (limits_lowest d) = index d" "index (limits_max d) = index d"
  by (cases d; simp)+

lemma clamp_base_range: "2 \<le> clamp_base b \<and> clamp_base b \<le> 36"
  by (simp add: clamp_base_def)

lemma wf_opt_constructors:
  "wf_opt (Option_bool nm alt)"
  "wf_opt (Option_default d nm alt)"
  "wf_opt (Option_base d b nm alt)"
  "index mn = index d \<Longrightarrow> index mx = index d \<Longrightarrow> wf_opt (Option_range d mn mx nm alt)"
  "index mn = index d \<Longrightarrow> index mx = index d \<Longrightarrow> wf_opt (Option_base_range d b mn mx nm alt)"
  by (simp_all add: wf_opt_def Option_bool_def Option_default_def Option_base_def
      Option_range_def Option_base_range_def clamp_base_range)

lemma matched_at_fields [simp]:
  "opt_value (matched_at opt s) = opt_value opt"
  "opt_min (matched_at opt s) = opt_min opt"
  "opt_max (matched_at opt s) = opt_max opt"
  "default_val (matched_at opt s) = default_val opt"
  "base (matched_at opt s) = base opt"
  "status (matched_at opt s) = status opt"
  "name (matched_at opt s) = name opt"
  "alt_name (matched_at opt s) = alt_name opt"
  by (simp_all add: matched_at_def NameMatch_def)

lemma wf_opt_matched_at [simp]: "wf_opt (matched_at opt s) = wf_opt opt"
  by (simp add: wf_opt_def)

lemma clamp_status: "fst (clamp lt v mn mx) \<in> {ClampedMin, ClampedMax, Parsed}"
  by (simp add: clamp_def)

lemma update_status:
  "update_numeric_value_n_status f val opt = Inr opt1 \<Longrightarrow>
     status opt1 = ClampedMin \<or> status opt1 = ClampedMax \<or> status opt1 = Parsed"
  unfolding update_numeric_value_n_status_def clamp_def
  by (auto split: Val.splits option.splits Num.splits if_splits)

lemma deal_integer_status:
  "deal_integer pf opt s = Inr opt1 \<Longrightarrow>
     status opt1 = ValueInvalid \<or> status opt1 = ClampedMin \<or> status opt1 = ClampedMax \<or> status opt1 = Parsed"
  by (auto simp: deal_integer_def split: prod.splits if_splits dest: update_status)

lemma deal_floating_status:
  "deal_floating pf opt s = Inr opt1 \<Longrightarrow>
     status opt1 = ValueInvalid \<or> status opt1 = ClampedMin \<or> status opt1 = ClampedMax \<or> status opt1 = Parsed"
  by (auto simp: deal_floating_def split: prod.splits if_splits dest: update_status)

lemma Parse_matched_status:
  assumes "Parse_matched pf p opt i = Inr (p1, opt1)"
  shows "status opt1 \<noteq> NotParsed \<and> status opt1 \<noteq> NotFound"
  using assms
  by (auto simp: Parse_matched_def Let_def map_sum_id_Inr split: if_splits
      dest: update_status deal_integer_status deal_floating_status)

lemma update_total_bool:
  "index (opt_value opt) = 0 \<Longrightarrow>
     update_numeric_value_n_status f (NBool b) opt = Inr (opt\<lparr>opt_value := VBool b, status := Parsed\<rparr>)"
  by (cases "opt_value opt") (simp_all add: update_numeric_value_n_status_def)

lemma update_total_int:
  assumes "wf_opt opt" "2 \<le> index (opt_value opt)" "index (opt_value opt) \<le> 4"
  shows "\<exists>opt1. update_numeric_value_n_status f (NInt64 v) opt = Inr opt1"
  using assms
  by (cases "opt_value opt"; cases "opt_min opt"; cases "opt_max opt")
    (simp_all add: wf_opt_def update_numeric_value_n_status_def split: prod.splits)

lemma update_total_double:
  assumes "wf_opt opt" "5 \<le> index (opt_value opt)"
  shows "\<exists>opt1. update_numeric_value_n_status f (NDouble v) opt = Inr opt1"
  using assms
  by (cases "opt_value opt"; cases "opt_min opt"; cases "opt_max opt")
    (simp_all add: wf_opt_def update_numeric_value_n_status_def split: prod.splits)

lemma Parse_matched_total:
  assumes "wf_opt opt"
  shows "\<exists>r. Parse_matched pf p opt i = Inr r"
proof -
  consider "index (opt_value opt) = 0" | "index (opt_value opt) = 1"
    | "2 \<le> index (opt_value opt)" "index (opt_value opt) \<le> 4" | "5 \<le> index (opt_value opt)"
    by linarith
  then show ?thesis
  proof cases
    case 1
    then show ?thesis
      by (simp add: Parse_matched_def Let_def update_total_bool)
  next
    case 2
    then show ?thesis
      by (simp add: Parse_matched_def Let_def)
  next
    case 3
    have "\<exists>r. deal_integer pf opt s = Inr r" for s
      using update_total_int [OF assms 3]
      by (simp add: deal_integer_def split: prod.splits)
    then obtain r where "deal_integer pf opt (snd (args (mark (i + 1) (mark i p)) ! (i + 1))) = Inr r"
      by blast
    with 3 show ?thesis
      by (simp add: Parse_matched_def Let_def)
  next
    case 4
    have "\<exists>r. deal_floating pf opt s = Inr r" for s
      using update_total_double [OF assms 4]
      by (simp add: deal_floating_def split: prod.splits)
    then obtain r where "deal_floating pf opt (snd (args (mark (i + 1) (mark i p)) ! (i + 1))) = Inr r"
      by blast
    with 4 show ?thesis
      by (simp add: Parse_matched_def Let_def)
  qed
qed

lemma match_point_or_none:
  "list_all (\<lambda>a. \<not> name_matches opt (snd a)) ts \<or> (\<exists>i. match_point opt ts i)"
proof (induction ts rule: rev_induct)
  case Nil
  then show ?case by simp
next
  case (snoc a ts)
  from snoc.IH show ?case
  proof
    assume none: "list_all (\<lambda>a. \<not> name_matches opt (snd a)) ts"
    show ?thesis
    proof (cases "name_matches opt (snd a)")
      case True
      with none have "match_point opt (ts @ [a]) (length ts)"
        by (simp add: match_point_def)
      then show ?thesis by blast
    next
      case False
      with none show ?thesis by simp
    qed
  next
    assume "\<exists>i. match_point opt ts i"
    then obtain i where "match_point opt ts i" ..
    then have "match_point opt (ts @ [a]) i"
      by (simp add: match_point_def nth_append)
    then show ?thesis by blast
  qed
qed

text \<open>
  C8. Whenever \<^verbatim>\<open>Parse\<close> returns, the value it returns is the status stored in the
  descriptor, and that status is not \<^verbatim>\<open>NotParsed\<close>; and \<^verbatim>\<open>Parse\<close> does return for every
  token list and every descriptor whose value and bounds are of one kind.
\<close>

theorem Parse_status_after:
  "(\<forall>st p1 opt1. Parse pf p opt = Inr (st, p1, opt1) \<longrightarrow> st = status opt1 \<and> status opt1 \<noteq> NotParsed)
   \<and> (wf_opt opt \<longrightarrow> (\<exists>st p1 opt1. Parse pf p opt = Inr (st, p1, opt1)))"
proof -
  from match_point_or_none [of opt "args p"]
  show ?thesis
  proof
    assume "list_all (\<lambda>a. \<not> name_matches opt (snd a)) (args p)"
    then show ?thesis
      by (simp add: Parse_no_match)
  next
    assume "\<exists>i. match_point opt (args p) i"
    then obtain i where i: "match_point opt (args p) i" ..
    let ?m = "Parse_matched pf p (matched_at opt (snd (args p ! i))) i"
    have eq: "Parse pf p opt = map_sum id returned ?m"
      by (rule Parse_match [OF i])
    have a: "st = status opt1 \<and> status opt1 \<noteq> NotParsed"
      if "Parse pf p opt = Inr (st, p1, opt1)" for st p1 opt1
    proof -
      from that have "?m = Inr (p1, opt1)" and "st = status opt1"
        by (auto simp: eq map_sum_id_Inr returned_def)
      then show ?thesis
        using Parse_matched_status by blast
    qed
    have b: "\<exists>st p1 opt1. Parse pf p opt = Inr (st, p1, opt1)" if "wf_opt opt"
    proof -
      from that have "wf_opt (matched_at opt (snd (args p ! i)))" by simp
      from Parse_matched_total [OF this] obtain r where "?m = Inr r" by blast
      then show ?thesis
        by (simp add: eq returned_def)
    qed
    from a b show ?thesis by blast
  qed
qed

theorem Parse_status_after_witness:
  "wf_opt (Option_range (VInt32 50) (VInt32 0) (VInt32 100) ''-g'' ''--int32_g'') \<and>
   (\<exists>p1 opt1.
      Parse example_platform
        \<lparr>args = [(True, ''prog''), (False, ''-g''), (False, ''1000'')], exec_name = ''prog''\<rparr>
        (Option_range (VInt32 50) (VInt32 0) (VInt32 100) ''-g'' ''--int32_g'')
        = Inr (status opt1, p1, opt1) \<and> status opt1 \<noteq> NotParsed)"
proof -
  have wf: "wf_opt (Option_range (VInt32 50) (VInt32 0) (VInt32 100) ''-g'' ''--int32_g'')"
    by (simp add: wf_opt_def Option_range_def)
  with Parse_status_after [of example_platform
      "\<lparr>args = [(True, ''prog''), (False, ''-g''), (False, ''1000'')], exec_name = ''prog''\<rparr>"
      "Option_range (VInt32 50) (VInt32 0) (VInt32 100) ''-g'' ''--int32_g''"]
  show ?thesis by blast
qed

subsection \<open>The match point\<close>


lemma mark_args_nth:
  "j < length (args p) \<Longrightarrow> args (mark i p) ! j = (if j = i then (True, snd (args p ! i)) else args p ! j)"
  by (simp add: mark_def nth_list_update)

lemma mark_texts [simp]: "map snd (args (mark i p)) = map snd (args p)"
proof (rule nth_equalityI)
  show "length (map snd (args (mark i p))) = length (map snd (args p))"
    by simp
next
  fix j
  assume "j < length (map snd (args (mark i p)))"
  then have "j < length (args p)" by simp
  then show "map snd (args (mark i p)) ! j = map snd (args p) ! j"
    by (cases "j = i") (simp_all add: mark_def)
qed

lemma snd_mark_nth [simp]: "snd (args (mark i p) ! j) = snd (args p ! j)"
  by (cases "i < length (args p)"; cases "j = i") (simp_all add: mark_def list_update_beyond)

text \<open>The descriptor that a match attempt leaves depends on the texts of the tokens only.\<close>

lemma Parse_matched_texts:
  assumes "map snd (args q) = map snd (args p)"
  shows "map_sum id snd (Parse_matched pf q opt i) = map_sum id snd (Parse_matched pf p opt i)"
proof -
  from assms have len: "length (args q) = length (args p)"
    by (metis length_map)
  have nth: "snd (args q ! j) = snd (args p ! j)" if "j < length (args p)" for j
    using assms that len by (metis nth_map)
  show ?thesis
    by (cases "i + 1 < length (args p)")
      (simp_all add: Parse_matched_def Let_def len nth sum.map_comp comp_def)
qed

lemma list_all_texts:
  "list_all (\<lambda>a. \<not> name_matches opt (snd a)) ts
     = list_all (\<lambda>s. \<not> name_matches opt s) (map snd ts)"
  by (induction ts) simp_all

lemma no_match_texts:
  assumes "map snd ts = map snd us"
  shows "list_all (\<lambda>a. \<not> name_matches opt (snd a)) ts = list_all (\<lambda>a. \<not> name_matches opt (snd a)) us"
  unfolding list_all_texts assms ..

lemma match_point_alt:
  "match_point opt ts i \<longleftrightarrow>
     i < length (map snd ts) \<and> name_matches opt (map snd ts ! i) \<and>
     list_all (\<lambda>s. \<not> name_matches opt s) (take i (map snd ts))"
proof -
  have "list_all (\<lambda>a. \<not> name_matches opt (snd a)) (take i ts)
      = list_all (\<lambda>s. \<not> name_matches opt s) (take i (map snd ts))"
    unfolding take_map by (rule list_all_texts)
  then show ?thesis
    unfolding match_point_def by (cases "i < length ts") simp_all
qed

lemma match_point_texts:
  assumes "map snd ts = map snd us"
  shows "match_point opt ts i = match_point opt us i"
  unfolding match_point_alt assms ..

lemma Parse_texts:
  assumes "map snd (args q) = map snd (args p)"
  shows "map_sum id (snd \<circ> snd) (Parse pf q opt) = map_sum id (snd \<circ> snd) (Parse pf p opt)"
proof -
  from match_point_or_none [of opt "args p"] show ?thesis
  proof
    assume n: "list_all (\<lambda>a. \<not> name_matches opt (snd a)) (args p)"
    then have "list_all (\<lambda>a. \<not> name_matches opt (snd a)) (args q)"
      using no_match_texts [OF assms] by simp
    with n show ?thesis by (simp add: Parse_no_match)
  next
    assume "\<exists>i. match_point opt (args p) i"
    then obtain i where i: "match_point opt (args p) i" ..
    then have j: "match_point opt (args q) i"
      using match_point_texts [OF assms] by simp
    from i have "i < length (args p)" by (simp add: match_point_def)
    then have t: "snd (args q ! i) = snd (args p ! i)"
      using assms by (metis length_map nth_map)
    have c: "map_sum id (snd \<circ> snd) (map_sum id returned x) = map_sum id snd x" for x
      by (cases x) (simp_all add: returned_def)
    show ?thesis
      by (simp add: Parse_match [OF i] Parse_match [OF j] c t Parse_matched_texts [OF assms])
  qed
qed


lemma Parse_matched_parser:
  assumes "Parse_matched pf p opt i = Inr (p1, opt1)"
  shows "p1 = (if index (opt_value opt) \<noteq> 0 \<and> i + 1 < length (args p)
               then mark (i + 1) (mark i p) else mark i p)"
proof (cases "index (opt_value opt) = 0")
  case True
  with assms show ?thesis
    by (auto simp: Parse_matched_def Let_def map_sum_id_Inr)
next
  case False
  show ?thesis
  proof (cases "i + 1 < length (args p)")
    case True
    with False assms show ?thesis
      by (simp add: Parse_matched_def Let_def map_sum_id_Inr split: if_splits)
  next
    case False
    with \<open>index (opt_value opt) \<noteq> 0\<close> assms show ?thesis
      by (simp add: Parse_matched_def Let_def)
  qed
qed

lemma Parse_matched_marks:
  assumes "Parse_matched pf p opt i = Inr (p1, opt1)" and "i < length (args p)"
  shows "fst (args p1 ! i)"
  unfolding Parse_matched_parser [OF assms(1)] using assms(2)
  by (simp add: mark_args_nth)

text \<open>
  C3. The scan compares the text of each token, in index order, with the two names and
  never reads the flag of a token. When no text matches, the result is \<^verbatim>\<open>NotFound\<close> and
  neither the parser nor the value changes. Otherwise the body of the loop runs at the
  first index whose text matches and nowhere else, that token is marked, and the status is
  not \<^verbatim>\<open>NotFound\<close>. Two token lists with the same texts, whatever their flags, leave
  the descriptor in the same state.
\<close>

theorem first_text_match_is_used:
  "(list_all (\<lambda>a. \<not> name_matches opt (snd a)) (args p) \<longrightarrow>
      Parse pf p opt = Inr (NotFound, p, opt\<lparr>status := NotFound\<rparr>))
   \<and> (match_point opt (args p) i \<longrightarrow>
      Parse pf p opt = map_sum id returned (Parse_matched pf p (matched_at opt (snd (args p ! i))) i)
      \<and> (\<forall>st p1 opt1. Parse pf p opt = Inr (st, p1, opt1) \<longrightarrow> st \<noteq> NotFound \<and> fst (args p1 ! i)))
   \<and> (map snd (args q) = map snd (args p) \<longrightarrow>
      map_sum id (snd \<circ> snd) (Parse pf q opt) = map_sum id (snd \<circ> snd) (Parse pf p opt))"
proof -
  have none: "Parse pf p opt = Inr (NotFound, p, opt\<lparr>status := NotFound\<rparr>)"
    if "list_all (\<lambda>a. \<not> name_matches opt (snd a)) (args p)"
    using that by (rule Parse_no_match)
  have used: "Parse pf p opt
      = map_sum id returned (Parse_matched pf p (matched_at opt (snd (args p ! i))) i)"
    if "match_point opt (args p) i"
    using that by (rule Parse_match)
  have marked: "st \<noteq> NotFound \<and> fst (args p1 ! i)"
    if i: "match_point opt (args p) i" and r: "Parse pf p opt = Inr (st, p1, opt1)"
    for st p1 opt1
  proof -
    let ?m = "Parse_matched pf p (matched_at opt (snd (args p ! i))) i"
    from r have m: "?m = Inr (p1, opt1)" and st: "st = status opt1"
      by (auto simp: used [OF i] map_sum_id_Inr returned_def)
    from i have len: "i < length (args p)" by (simp add: match_point_def)
    from m len have "fst (args p1 ! i)"
      by (rule Parse_matched_marks)
    with Parse_matched_status [OF m] st show ?thesis
      by simp
  qed
  have texts: "map_sum id (snd \<circ> snd) (Parse pf q opt) = map_sum id (snd \<circ> snd) (Parse pf p opt)"
    if "map snd (args q) = map snd (args p)"
    using that by (rule Parse_texts)
  from none used marked texts show ?thesis
    by blast
qed


theorem first_text_match_is_used_witness:
  "match_point (Option_default (VString ''dflt'') ''-d'' ''--string_d'')
     [(True, ''prog''), (True, ''-c''), (True, ''-d''), (False, ''-d''), (False, ''x'')] 2
   \<and> Parse example_platform
       \<lparr>args = [(True, ''prog''), (True, ''-c''), (True, ''-d''), (False, ''-d''), (False, ''x'')],
        exec_name = ''prog''\<rparr>
       (Option_default (VString ''dflt'') ''-d'' ''--string_d'')
     = Inr (Parsed,
        \<lparr>args = [(True, ''prog''), (True, ''-c''), (True, ''-d''), (True, ''-d''), (False, ''x'')],
         exec_name = ''prog''\<rparr>,
        (Option_default (VString ''dflt'') ''-d'' ''--string_d'')
          \<lparr>status := Parsed, matched_name := Name, opt_value := VString ''-d''\<rparr>)
   \<and> list_all (\<lambda>a. \<not> name_matches (Option_bool ''-a'' []) (snd a))
       [(True, ''prog''), (False, ''--typo'')]
   \<and> Parse example_platform
       \<lparr>args = [(True, ''prog''), (False, ''--typo'')], exec_name = ''prog''\<rparr>
       (Option_bool ''-a'' [])
     = Inr (NotFound,
        \<lparr>args = [(True, ''prog''), (False, ''--typo'')], exec_name = ''prog''\<rparr>,
        (Option_bool ''-a'' [])\<lparr>status := NotFound\<rparr>)"
proof -
  let ?opt = "Option_default (VString ''dflt'') ''-d'' ''--string_d''"
  let ?p = "\<lparr>args = [(True, ''prog''), (True, ''-c''), (True, ''-d''), (False, ''-d''), (False, ''x'')],
        exec_name = ''prog''\<rparr>"
  let ?q = "\<lparr>args = [(True, ''prog''), (False, ''--typo'')], exec_name = ''prog''\<rparr>"
  have m: "match_point ?opt (args ?p) 2"
    by (simp add: match_point_def name_matches_def Option_default_def)
  have n: "list_all (\<lambda>a. \<not> name_matches (Option_bool ''-a'' []) (snd a)) (args ?q)"
    by (simp add: name_matches_def Option_bool_def)
  have e: "map_sum id returned (Parse_matched example_platform ?p (matched_at ?opt (snd (args ?p ! 2))) 2)
      = Inr (Parsed,
        \<lparr>args = [(True, ''prog''), (True, ''-c''), (True, ''-d''), (True, ''-d''), (False, ''x'')],
         exec_name = ''prog''\<rparr>,
        ?opt\<lparr>status := Parsed, matched_name := Name, opt_value := VString ''-d''\<rparr>)"
    by (simp add: Parse_matched_def matched_at_def NameMatch_def returned_def mark_def
        Option_default_def Let_def)
  from first_text_match_is_used [of ?opt ?p example_platform 2 ?p] m e
    first_text_match_is_used [of "Option_bool ''-a'' []" ?q example_platform 0 ?q] n
  show ?thesis by simp
qed

subsection \<open>Flags, missing values and malformed values\<close>

lemma matched_at_eq:
  "name_matches opt s \<Longrightarrow>
     matched_at opt s = opt\<lparr>matched_name := (if name opt = s then Name else AltName)\<rparr>"
  by (auto simp: matched_at_def NameMatch_def name_matches_def)

lemma mark_mark:
  "mark j (mark i p) = p\<lparr>args := (args p)[i := (True, snd (args p ! i)), j := (True, snd (args p ! j))]\<rparr>"
proof -
  have "snd ((args p)[i := (True, snd (args p ! i))] ! j) = snd (args p ! j)"
    using snd_mark_nth [of i p j] by (simp add: mark_def)
  then show ?thesis by (simp add: mark_def)
qed

text \<open>
  C6. A descriptor of kind \<^verbatim>\<open>bool\<close>, which the constructor creates with the value false:
  at the first token whose text is one of its names, the attempt returns \<^verbatim>\<open>Parsed\<close>, the
  value is true and the token list changes at that index only, so no following token is
  marked; when no token has one of its names, the attempt returns \<^verbatim>\<open>NotFound\<close> and the
  value stays what it was.
\<close>

theorem bool_descriptor_attempt:
  assumes "index (opt_value opt) = 0"
  shows "(match_point opt (args p) i \<longrightarrow>
            Parse pf p opt =
              Inr (Parsed, p\<lparr>args := (args p)[i := (True, snd (args p ! i))]\<rparr>,
                   opt\<lparr>matched_name := (if name opt = snd (args p ! i) then Name else AltName),
                       opt_value := VBool True, status := Parsed\<rparr>))
       \<and> (list_all (\<lambda>a. \<not> name_matches opt (snd a)) (args p) \<longrightarrow>
            Parse pf p opt = Inr (NotFound, p, opt\<lparr>status := NotFound\<rparr>))
       \<and> opt_value (Option_bool nm alt) = VBool False"
proof -
  have a: "Parse pf p opt =
              Inr (Parsed, p\<lparr>args := (args p)[i := (True, snd (args p ! i))]\<rparr>,
                   opt\<lparr>matched_name := (if name opt = snd (args p ! i) then Name else AltName),
                       opt_value := VBool True, status := Parsed\<rparr>)"
    if m: "match_point opt (args p) i"
  proof -
    from m have nm: "name_matches opt (snd (args p ! i))"
      by (simp add: match_point_def)
    show ?thesis
      unfolding Parse_match [OF m] matched_at_eq [OF nm]
      using assms
      by (simp add: Parse_matched_def Let_def update_total_bool returned_def mark_def)
  qed
  have b: "opt_value (Option_bool nm alt) = VBool False"
    by (simp add: Option_bool_def)
  from a b Parse_no_match [of opt p pf] show ?thesis
    by blast
qed

theorem bool_descriptor_attempt_witness:
  "index (opt_value (Option_bool ''-b'' ''--bool_b'')) = 0
   \<and> match_point (Option_bool ''-b'' ''--bool_b'')
       [(True, ''prog''), (False, ''-a''), (False, ''--bool_b''), (False, ''x'')] 2
   \<and> Parse example_platform
       \<lparr>args = [(True, ''prog''), (False, ''-a''), (False, ''--bool_b''), (False, ''x'')],
        exec_name = ''prog''\<rparr>
       (Option_bool ''-b'' ''--bool_b'')
     = Inr (Parsed,
        \<lparr>args = [(True, ''prog''), (False, ''-a''), (True, ''--bool_b''), (False, ''x'')],
         exec_name = ''prog''\<rparr>,
        (Option_bool ''-b'' ''--bool_b'')
          \<lparr>matched_name := AltName, opt_value := VBool True, status := Parsed\<rparr>)
   \<and> list_all (\<lambda>a. \<not> name_matches (Option_bool ''-b'' ''--bool_b'') (snd a))
       [(True, ''prog''), (False, ''-a'')]
   \<and> Parse example_platform
       \<lparr>args = [(True, ''prog''), (False, ''-a'')], exec_name = ''prog''\<rparr>
       (Option_bool ''-b'' ''--bool_b'')
     = Inr (NotFound,
        \<lparr>args = [(True, ''prog''), (False, ''-a'')], exec_name = ''prog''\<rparr>,
        (Option_bool ''-b'' ''--bool_b'')\<lparr>status := NotFound\<rparr>)
   \<and> opt_value ((Option_bool ''-b'' ''--bool_b'')\<lparr>status := NotFound\<rparr>) = VBool False"
proof -
  let ?opt = "Option_bool ''-b'' ''--bool_b''"
  let ?p = "\<lparr>args = [(True, ''prog''), (False, ''-a''), (False, ''--bool_b''), (False, ''x'')],
        exec_name = ''prog''\<rparr>"
  let ?q = "\<lparr>args = [(True, ''prog''), (False, ''-a'')], exec_name = ''prog''\<rparr>"
  have k: "index (opt_value ?opt) = 0"
    by (simp add: Option_bool_def)
  have m: "match_point ?opt (args ?p) 2"
    by (simp add: match_point_def name_matches_def Option_bool_def)
  have n: "list_all (\<lambda>a. \<not> name_matches ?opt (snd a)) (args ?q)"
    by (simp add: name_matches_def Option_bool_def)
  have nm: "name ?opt \<noteq> ''--bool_b''"
    by (simp add: Option_bool_def)
  from bool_descriptor_attempt [OF k, of ?p 2 example_platform "''-b''" "''--bool_b''"] m nm
    bool_descriptor_attempt [OF k, of ?q 0 example_platform "''-b''" "''--bool_b''"] n
  show ?thesis by simp
qed

text \<open>
  C5. A descriptor of any kind but \<^verbatim>\<open>bool\<close> whose match point is the last token: the
  attempt returns \<^verbatim>\<open>ValueNotFound\<close>, marks that token only and leaves the value and the
  default as they were. When a token follows the match point, the attempt marks both
  tokens, whatever the status it returns.
\<close>

theorem value_token_attempt:
  assumes "index (opt_value opt) \<noteq> 0" and "match_point opt (args p) i"
  shows "(i + 1 = length (args p) \<longrightarrow>
            Parse pf p opt =
              Inr (ValueNotFound, p\<lparr>args := (args p)[i := (True, snd (args p ! i))]\<rparr>,
                   opt\<lparr>matched_name := (if name opt = snd (args p ! i) then Name else AltName),
                       status := ValueNotFound\<rparr>))
       \<and> (i + 1 < length (args p) \<and> wf_opt opt \<longrightarrow>
            (\<exists>opt1. Parse pf p opt =
               Inr (status opt1,
                    p\<lparr>args := (args p)[i := (True, snd (args p ! i)),
                                        i + 1 := (True, snd (args p ! (i + 1)))]\<rparr>,
                    opt1)))"
proof -
  from assms(2) have nm: "name_matches opt (snd (args p ! i))"
    by (simp add: match_point_def)
  let ?o = "opt\<lparr>matched_name := (if name opt = snd (args p ! i) then Name else AltName)\<rparr>"
  have eq: "Parse pf p opt = map_sum id returned (Parse_matched pf p ?o i)"
    using Parse_match [OF assms(2)] matched_at_eq [OF nm] by simp
  have a: "Parse pf p opt =
              Inr (ValueNotFound, p\<lparr>args := (args p)[i := (True, snd (args p ! i))]\<rparr>,
                   ?o\<lparr>status := ValueNotFound\<rparr>)"
    if "i + 1 = length (args p)"
    unfolding eq using assms(1) that
    by (simp add: Parse_matched_def Let_def returned_def mark_def)
  have b: "\<exists>opt1. Parse pf p opt =
               Inr (status opt1,
                    p\<lparr>args := (args p)[i := (True, snd (args p ! i)),
                                        i + 1 := (True, snd (args p ! (i + 1)))]\<rparr>,
                    opt1)"
    if "i + 1 < length (args p)" and wf: "wf_opt opt"
  proof -
    from wf have "wf_opt ?o" by (simp add: wf_opt_def)
    from Parse_matched_total [OF this] obtain p1 opt1
      where r: "Parse_matched pf p ?o i = Inr (p1, opt1)" by fastforce
    from Parse_matched_parser [OF r] assms(1) that(1)
    have "p1 = mark (i + 1) (mark i p)" by simp
    with r show ?thesis
      by (simp add: eq returned_def mark_mark)
  qed
  from a b show ?thesis by auto
qed


theorem value_token_attempt_witness:
  "index (opt_value (Option_default (VDouble (Fin 0)) ''-n'' ''--double_n'')) \<noteq> 0
   \<and> match_point (Option_default (VDouble (Fin 0)) ''-n'' ''--double_n'')
       [(True, ''prog''), (False, ''opps''), (False, ''-n'')] 2
   \<and> Parse example_platform
       \<lparr>args = [(True, ''prog''), (False, ''opps''), (False, ''-n'')], exec_name = ''prog''\<rparr>
       (Option_default (VDouble (Fin 0)) ''-n'' ''--double_n'')
     = Inr (ValueNotFound,
        \<lparr>args = [(True, ''prog''), (False, ''opps''), (True, ''-n'')], exec_name = ''prog''\<rparr>,
        (Option_default (VDouble (Fin 0)) ''-n'' ''--double_n'')
          \<lparr>matched_name := Name, status := ValueNotFound\<rparr>)
   \<and> opt_value ((Option_default (VDouble (Fin 0)) ''-n'' ''--double_n'')
          \<lparr>matched_name := Name, status := ValueNotFound\<rparr>)
     = default_val (Option_default (VDouble (Fin 0)) ''-n'' ''--double_n'')
   \<and> match_point (Option_default (VDouble (Fin 0)) ''-n'' ''--double_n'')
       [(True, ''prog''), (False, ''-n''), (False, ''0.5x'')] 1
   \<and> wf_opt (Option_default (VDouble (Fin 0)) ''-n'' ''--double_n'')
   \<and> (\<exists>opt1. Parse example_platform
       \<lparr>args = [(True, ''prog''), (False, ''-n''), (False, ''0.5x'')], exec_name = ''prog''\<rparr>
       (Option_default (VDouble (Fin 0)) ''-n'' ''--double_n'')
     = Inr (status opt1,
        \<lparr>args = [(True, ''prog''), (True, ''-n''), (True, ''0.5x'')], exec_name = ''prog''\<rparr>,
        opt1))"
proof -
  let ?opt = "Option_default (VDouble (Fin 0)) ''-n'' ''--double_n''"
  let ?p = "\<lparr>args = [(True, ''prog''), (False, ''opps''), (False, ''-n'')], exec_name = ''prog''\<rparr>"
  let ?q = "\<lparr>args = [(True, ''prog''), (False, ''-n''), (False, ''0.5x'')], exec_name = ''prog''\<rparr>"
  have k: "index (opt_value ?opt) \<noteq> 0"
    by (simp add: Option_default_def)
  have m: "match_point ?opt (args ?p) 2"
    by (simp add: match_point_def name_matches_def Option_default_def)
  have n: "match_point ?opt (args ?q) 1"
    by (simp add: match_point_def name_matches_def Option_default_def)
  have wf: "wf_opt ?opt"
    by (simp add: wf_opt_def Option_default_def)
  have nm: "name ?opt = ''-n''"
    by (simp add: Option_default_def)
  have dv: "opt_value (?opt\<lparr>matched_name := Name, status := ValueNotFound\<rparr>) = default_val ?opt"
    by (simp add: Option_default_def)
  from value_token_attempt [OF k m, of example_platform] value_token_attempt [OF k n, of example_platform]
    k m n wf nm dv
  show ?thesis by simp
qed

text \<open>
  C4. A numeric descriptor whose match point is followed by a token that the conversion
  does not read to its end, or, for the floating kinds, reads as not a number: the attempt
  returns \<^verbatim>\<open>ValueInvalid\<close>, marks both tokens and leaves the value as it was before the
  attempt.
\<close>

theorem malformed_literal_attempt:
  assumes "2 \<le> index (opt_value opt)"
    and "match_point opt (args p) i"
    and "i + 1 < length (args p)"
    and "if index (opt_value opt) \<le> 4
         then snd (strtoll (snd (args p ! (i + 1))) (base opt)) < length (snd (args p ! (i + 1)))
         else snd (strtod pf (snd (args p ! (i + 1)))) < length (snd (args p ! (i + 1)))
              \<or> isnan (fst (strtod pf (snd (args p ! (i + 1)))))"
  shows "Parse pf p opt =
           Inr (ValueInvalid,
                p\<lparr>args := (args p)[i := (True, snd (args p ! i)),
                                    i + 1 := (True, snd (args p ! (i + 1)))]\<rparr>,
                opt\<lparr>matched_name := (if name opt = snd (args p ! i) then Name else AltName),
                    status := ValueInvalid\<rparr>)"
proof -
  from assms(2) have nm: "name_matches opt (snd (args p ! i))"
    by (simp add: match_point_def)
  let ?o = "opt\<lparr>matched_name := (if name opt = snd (args p ! i) then Name else AltName)\<rparr>"
  let ?t = "snd (args p ! (i + 1))"
  have eq: "Parse pf p opt = map_sum id returned (Parse_matched pf p ?o i)"
    using Parse_match [OF assms(2)] matched_at_eq [OF nm] by simp
  have m: "Parse_matched pf p ?o i =
      map_sum id (Pair (mark (i + 1) (mark i p)))
        (if index (opt_value opt) \<le> 4 then deal_integer pf ?o ?t else deal_floating pf ?o ?t)"
    using assms(1,3) by (simp add: Parse_matched_def Let_def)
  have d: "(if index (opt_value opt) \<le> 4 then deal_integer pf ?o ?t else deal_floating pf ?o ?t)
      = Inr (?o\<lparr>status := ValueInvalid\<rparr>)"
  proof (cases "index (opt_value opt) \<le> 4")
    case True
    obtain v n where c: "strtoll ?t (base opt) = (v, n)"
      by (cases "strtoll ?t (base opt)")
    with assms(4) True have "n < length ?t" by simp
    with True c show ?thesis
      by (simp add: deal_integer_def)
  next
    case False
    obtain v n where c: "strtod pf ?t = (v, n)"
      by (cases "strtod pf ?t")
    with assms(4) False have "n < length ?t \<or> isnan v" by simp
    with False c show ?thesis
      by (simp add: deal_floating_def)
  qed
  show ?thesis
    unfolding eq m d by (simp add: returned_def mark_mark)
qed

theorem malformed_literal_attempt_witness:
  "snd (strtoll ''0x5x5x'' 16) < length ''0x5x5x''
   \<and> Parse example_platform
       \<lparr>args = [(True, ''prog''), (False, ''--int32_i''), (False, ''0x5x5x'')],
        exec_name = ''prog''\<rparr>
       (Option_base_range (VInt32 7) 16 (VInt32 0) (VInt32 65535) ''--int32_i'' [])
     = Inr (ValueInvalid,
        \<lparr>args = [(True, ''prog''), (True, ''--int32_i''), (True, ''0x5x5x'')],
         exec_name = ''prog''\<rparr>,
        (Option_base_range (VInt32 7) 16 (VInt32 0) (VInt32 65535) ''--int32_i'' [])
          \<lparr>matched_name := Name, status := ValueInvalid\<rparr>)
   \<and> opt_value ((Option_base_range (VInt32 7) 16 (VInt32 0) (VInt32 65535) ''--int32_i'' [])
          \<lparr>matched_name := Name, status := ValueInvalid\<rparr>) = VInt32 7
   \<and> isnan (fst (strtod example_platform ''nan''))
   \<and> Parse example_platform
       \<lparr>args = [(True, ''prog''), (False, ''-l''), (False, ''nan'')], exec_name = ''prog''\<rparr>
       (Option_default (VFloat (Fin 2)) ''-l'' ''--float_l'')
     = Inr (ValueInvalid,
        \<lparr>args = [(True, ''prog''), (True, ''-l''), (True, ''nan'')], exec_name = ''prog''\<rparr>,
        (Option_default (VFloat (Fin 2)) ''-l'' ''--float_l'')
          \<lparr>matched_name := Name, status := ValueInvalid\<rparr>)"
proof -
  let ?opt = "Option_base_range (VInt32 7) 16 (VInt32 0) (VInt32 65535) ''--int32_i'' []"
  let ?p = "\<lparr>args = [(True, ''prog''), (False, ''--int32_i''), (False, ''0x5x5x'')],
        exec_name = ''prog''\<rparr>"
  let ?opf = "Option_default (VFloat (Fin 2)) ''-l'' ''--float_l''"
  let ?q = "\<lparr>args = [(True, ''prog''), (False, ''-l''), (False, ''nan'')], exec_name = ''prog''\<rparr>"
  have s: "strtoll ''0x5x5x'' 16 = (5, 3)"
    by (simp add: strtoll_def isspace_def has_hex_prefix_def digit_of_def saturate_def)
  have f: "strtod example_platform ''nan'' = (NaN, 3)"
    by (simp add: example_platform_def example_strtod_def)
  have k: "2 \<le> index (opt_value ?opt)" "base ?opt = 16" "index (opt_value ?opt) \<le> 4"
    "name ?opt = ''--int32_i''"
    by (simp_all add: Option_base_range_def clamp_base_def)
  have m: "match_point ?opt (args ?p) 1"
    by (simp add: match_point_def name_matches_def Option_base_range_def)
  have kf: "2 \<le> index (opt_value ?opf)" "\<not> index (opt_value ?opf) \<le> 4" "name ?opf = ''-l''"
    by (simp_all add: Option_default_def)
  have mf: "match_point ?opf (args ?q) 1"
    by (simp add: match_point_def name_matches_def Option_default_def)
  have a: "Parse example_platform ?p ?opt
     = Inr (ValueInvalid,
        \<lparr>args = [(True, ''prog''), (True, ''--int32_i''), (True, ''0x5x5x'')],
         exec_name = ''prog''\<rparr>,
        ?opt\<lparr>matched_name := Name, status := ValueInvalid\<rparr>)"
    using malformed_literal_attempt [OF k(1) m, of example_platform] k s by simp
  have b: "Parse example_platform ?q ?opf
     = Inr (ValueInvalid,
        \<lparr>args = [(True, ''prog''), (True, ''-l''), (True, ''nan'')], exec_name = ''prog''\<rparr>,
        ?opf\<lparr>matched_name := Name, status := ValueInvalid\<rparr>)"
    using malformed_literal_attempt [OF kf(1) mf, of example_platform] kf f
    by (simp add: isnan_def)
  have c: "opt_value (?opt\<lparr>matched_name := Name, status := ValueInvalid\<rparr>) = VInt32 7"
    by (simp add: Option_base_range_def)
  from a b c s f show ?thesis
    by (simp add: isnan_def)
qed

subsection \<open>Numeric values and the bounds\<close>

lemma fp_less_irrefl [simp]: "\<not> fp_less x x"
  by (cases x) simp_all

lemma fp_less_trans: "fp_less x y \<Longrightarrow> fp_less y z \<Longrightarrow> fp_less x z"
  by (cases x; cases y; cases z) simp_all

lemma fp_less_asym: "fp_less x y \<Longrightarrow> \<not> fp_less y x"
  by (cases x; cases y) simp_all

lemma fp_not_less: "x \<noteq> NaN \<Longrightarrow> y \<noteq> NaN \<Longrightarrow> \<not> fp_less x y \<longleftrightarrow> fp_le y x"
  by (cases x; cases y) (auto simp: fp_le_def)

lemma fp_le_not_NaN: "fp_le x y \<Longrightarrow> x \<noteq> NaN \<and> y \<noteq> NaN"
  by (cases x; cases y) (auto simp: fp_le_def)

lemma fp_le_refl: "x \<noteq> NaN \<Longrightarrow> fp_le x x"
  by (simp add: fp_le_def)

lemma fp_le_less_trans: "fp_le x y \<Longrightarrow> fp_less y z \<Longrightarrow> fp_less x z"
  by (auto simp: fp_le_def dest: fp_less_trans)

lemma fp_less_le_trans: "fp_less x y \<Longrightarrow> fp_le y z \<Longrightarrow> fp_less x z"
  by (auto simp: fp_le_def dest: fp_less_trans)

text \<open>The clamp of a number against bounds in order.\<close>

lemma clamp_fp:
  assumes "fp_le mn mx" and "v \<noteq> NaN"
  shows "fp_le mn (snd (clamp fp_less v mn mx))"
    and "fp_le (snd (clamp fp_less v mn mx)) mx"
    and "fst (clamp fp_less v mn mx) = ClampedMin \<longleftrightarrow> fp_less v mn"
    and "fst (clamp fp_less v mn mx) = ClampedMax \<longleftrightarrow> fp_less mx v"
    and "fst (clamp fp_less v mn mx) = Parsed \<longleftrightarrow> fp_le mn v \<and> fp_le v mx"
    and "fst (clamp fp_less v mn mx) = ClampedMin \<Longrightarrow> snd (clamp fp_less v mn mx) = mn"
    and "fst (clamp fp_less v mn mx) = ClampedMax \<Longrightarrow> snd (clamp fp_less v mn mx) = mx"
    and "fst (clamp fp_less v mn mx) = Parsed \<Longrightarrow> snd (clamp fp_less v mn mx) = v"
proof -
  from assms(1) have n: "mn \<noteq> NaN" "mx \<noteq> NaN"
    by (auto dest: fp_le_not_NaN)
  have a: "\<not> fp_less v mn \<longleftrightarrow> fp_le mn v" and b: "\<not> fp_less mx v \<longleftrightarrow> fp_le v mx"
    using n assms(2) by (simp_all add: fp_not_less)
  have c: "fp_less mx v \<Longrightarrow> \<not> fp_less v mn"
    using assms(1) by (meson fp_le_less_trans fp_less_asym)
  show "fp_le mn (snd (clamp fp_less v mn mx))"
    using assms(1) n a by (simp add: clamp_def fp_le_refl)
  show "fp_le (snd (clamp fp_less v mn mx)) mx"
    using assms(1) n b by (simp add: clamp_def fp_le_refl)
  show "fst (clamp fp_less v mn mx) = ClampedMin \<longleftrightarrow> fp_less v mn"
    by (simp add: clamp_def)
  show "fst (clamp fp_less v mn mx) = ClampedMax \<longleftrightarrow> fp_less mx v"
    using c by (auto simp: clamp_def)
  show "fst (clamp fp_less v mn mx) = Parsed \<longleftrightarrow> fp_le mn v \<and> fp_le v mx"
    using a b by (auto simp: clamp_def)
  show "fst (clamp fp_less v mn mx) = ClampedMin \<Longrightarrow> snd (clamp fp_less v mn mx) = mn"
    by (simp add: clamp_def split: if_splits)
  show "fst (clamp fp_less v mn mx) = ClampedMax \<Longrightarrow> snd (clamp fp_less v mn mx) = mx"
    by (simp add: clamp_def split: if_splits)
  show "fst (clamp fp_less v mn mx) = Parsed \<Longrightarrow> snd (clamp fp_less v mn mx) = v"
    by (simp add: clamp_def split: if_splits)
qed

lemma clamp_of_int:
  "clamp fp_less (Fin (of_int a)) (Fin (of_int b)) (Fin (of_int c))
     = (fst (clamp (<) a b c), Fin (of_int (snd (clamp (<) a b c))))"
  by (simp add: clamp_def)

lemma clamp_int_cases:
  "snd (clamp (<) (a::int) b c) = a \<and> \<not> a < b \<and> \<not> c < a \<and> fst (clamp (<) a b c) = Parsed
   \<or> snd (clamp (<) a b c) = b \<and> fst (clamp (<) a b c) = ClampedMin
   \<or> snd (clamp (<) a b c) = c \<and> fst (clamp (<) a b c) = ClampedMax"
  by (simp add: clamp_def)

text \<open>Narrowing the clamped 64-bit integer to the kind of the descriptor loses nothing.\<close>

lemma narrow_int32:
  fixes mn mx :: "32 word" and v :: "64 word"
  defines "r \<equiv> snd (clamp (<) (sint v) (sint mn) (sint mx))"
  shows "sint (of_int r :: 32 word) = r"
proof -
  have "- (2 ^ 31) \<le> r \<and> r < 2 ^ 31"
    using clamp_int_cases [of "sint v" "sint mn" "sint mx"]
      sint_ge [of mn] sint_lt [of mn] sint_ge [of mx] sint_lt [of mx]
    unfolding r_def by auto
  then show ?thesis
    by (simp add: sint_sbintrunc' signed_take_bit_int_eq_self)
qed

lemma narrow_uint32:
  fixes mn mx :: "32 word" and v :: "64 word"
  defines "r \<equiv> snd (clamp (<) (sint v) (uint mn) (uint mx))"
  shows "uint (of_int r :: 32 word) = r"
proof -
  have lo: "0 \<le> uint mn" "0 \<le> uint mx"
    by simp_all
  have hi: "uint mn < 2 ^ 32" "uint mx < 2 ^ 32"
    using uint_lt2p [of mn] uint_lt2p [of mx] by simp_all
  consider "r = sint v" "\<not> sint v < uint mn" "\<not> uint mx < sint v" | "r = uint mn" | "r = uint mx"
    using clamp_int_cases [of "sint v" "uint mn" "uint mx"] unfolding r_def by blast
  then have "0 \<le> r \<and> r < 2 ^ 32"
    using lo hi by cases linarith+
  then show ?thesis
    by (simp add: uint_word_of_int take_bit_int_eq_self)
qed

lemma narrow_int64:
  fixes mn mx v :: "64 word"
  defines "r \<equiv> snd (clamp (<) (sint v) (sint mn) (sint mx))"
  shows "sint (of_int r :: 64 word) = r"
proof -
  have "- (2 ^ 63) \<le> r \<and> r < 2 ^ 63"
    using clamp_int_cases [of "sint v" "sint mn" "sint mx"]
      sint_ge [of mn] sint_lt [of mn] sint_ge [of mx] sint_lt [of mx] sint_ge [of v] sint_lt [of v]
    unfolding r_def by auto
  then show ?thesis
    by (simp add: sint_sbintrunc' signed_take_bit_int_eq_self)
qed


lemma update_int32_kind:
  fixes v :: "64 word"
  assumes "opt_value opt = VInt32 w" "opt_min opt = VInt32 mn" "opt_max opt = VInt32 mx"
  defines "C \<equiv> clamp fp_less (Fin (of_int (sint v))) (val_num (opt_min opt)) (val_num (opt_max opt))"
  shows "\<exists>x. update_numeric_value_n_status f (NInt64 v) opt
            = Inr (opt\<lparr>opt_value := x, status := fst C\<rparr>)
          \<and> val_num x = snd C \<and> index x = index (opt_value opt)
          \<and> (fst C = ClampedMin \<longrightarrow> x = opt_min opt)
          \<and> (fst C = ClampedMax \<longrightarrow> x = opt_max opt)"
proof -
  let ?c = "clamp (<) (sint v) (sint mn) (sint mx)"
  have C: "C = (fst ?c, Fin (of_int (snd ?c)))"
    unfolding C_def assms(2,3) val_num.simps by (rule clamp_of_int)
  have u: "update_numeric_value_n_status f (NInt64 v) opt
      = Inr (opt\<lparr>opt_value := VInt32 (of_int (snd ?c)), status := fst ?c\<rparr>)"
    by (simp add: update_numeric_value_n_status_def assms(1-3) split: prod.splits)
  have n: "val_num (VInt32 (of_int (snd ?c))) = Fin (of_int (snd ?c))"
    by (simp only: val_num.simps narrow_int32)
  have mn: "fst ?c = ClampedMin \<Longrightarrow> VInt32 (of_int (snd ?c)) = VInt32 mn"
    and mx: "fst ?c = ClampedMax \<Longrightarrow> VInt32 (of_int (snd ?c)) = VInt32 mx"
    by (simp_all add: clamp_def split: if_splits)
  show ?thesis
    unfolding C
    by (intro exI [of _ "VInt32 (of_int (snd ?c))"])
      (use u n mn mx in \<open>simp add: assms(1-3)\<close>)
qed

lemma update_uint32_kind:
  fixes v :: "64 word"
  assumes "opt_value opt = VUInt32 w" "opt_min opt = VUInt32 mn" "opt_max opt = VUInt32 mx"
  defines "C \<equiv> clamp fp_less (Fin (of_int (sint v))) (val_num (opt_min opt)) (val_num (opt_max opt))"
  shows "\<exists>x. update_numeric_value_n_status f (NInt64 v) opt
            = Inr (opt\<lparr>opt_value := x, status := fst C\<rparr>)
          \<and> val_num x = snd C \<and> index x = index (opt_value opt)
          \<and> (fst C = ClampedMin \<longrightarrow> x = opt_min opt)
          \<and> (fst C = ClampedMax \<longrightarrow> x = opt_max opt)"
proof -
  let ?c = "clamp (<) (sint v) (uint mn) (uint mx)"
  have C: "C = (fst ?c, Fin (of_int (snd ?c)))"
    unfolding C_def assms(2,3) val_num.simps by (rule clamp_of_int)
  have u: "update_numeric_value_n_status f (NInt64 v) opt
      = Inr (opt\<lparr>opt_value := VUInt32 (of_int (snd ?c)), status := fst ?c\<rparr>)"
    by (simp add: update_numeric_value_n_status_def assms(1-3) split: prod.splits)
  have n: "val_num (VUInt32 (of_int (snd ?c))) = Fin (of_int (snd ?c))"
    by (simp only: val_num.simps narrow_uint32)
  have mn: "fst ?c = ClampedMin \<Longrightarrow> VUInt32 (of_int (snd ?c)) = VUInt32 mn"
    and mx: "fst ?c = ClampedMax \<Longrightarrow> VUInt32 (of_int (snd ?c)) = VUInt32 mx"
    by (simp_all add: clamp_def split: if_splits)
  show ?thesis
    unfolding C
    by (intro exI [of _ "VUInt32 (of_int (snd ?c))"])
      (use u n mn mx in \<open>simp add: assms(1-3)\<close>)
qed

lemma update_int64_kind:
  fixes v :: "64 word"
  assumes "opt_value opt = VInt64 w" "opt_min opt = VInt64 mn" "opt_max opt = VInt64 mx"
  defines "C \<equiv> clamp fp_less (Fin (of_int (sint v))) (val_num (opt_min opt)) (val_num (opt_max opt))"
  shows "\<exists>x. update_numeric_value_n_status f (NInt64 v) opt
            = Inr (opt\<lparr>opt_value := x, status := fst C\<rparr>)
          \<and> val_num x = snd C \<and> index x = index (opt_value opt)
          \<and> (fst C = ClampedMin \<longrightarrow> x = opt_min opt)
          \<and> (fst C = ClampedMax \<longrightarrow> x = opt_max opt)"
proof -
  let ?c = "clamp (<) (sint v) (sint mn) (sint mx)"
  have C: "C = (fst ?c, Fin (of_int (snd ?c)))"
    unfolding C_def assms(2,3) val_num.simps by (rule clamp_of_int)
  have u: "update_numeric_value_n_status f (NInt64 v) opt
      = Inr (opt\<lparr>opt_value := VInt64 (of_int (snd ?c)), status := fst ?c\<rparr>)"
    by (simp add: update_numeric_value_n_status_def assms(1-3) split: prod.splits)
  have n: "val_num (VInt64 (of_int (snd ?c))) = Fin (of_int (snd ?c))"
    by (simp only: val_num.simps narrow_int64)
  have mn: "fst ?c = ClampedMin \<Longrightarrow> VInt64 (of_int (snd ?c)) = VInt64 mn"
    and mx: "fst ?c = ClampedMax \<Longrightarrow> VInt64 (of_int (snd ?c)) = VInt64 mx"
    by (simp_all add: clamp_def split: if_splits)
  show ?thesis
    unfolding C
    by (intro exI [of _ "VInt64 (of_int (snd ?c))"])
      (use u n mn mx in \<open>simp add: assms(1-3)\<close>)
qed

lemma update_integer_kind:
  fixes v :: "64 word"
  assumes "wf_opt opt" "2 \<le> index (opt_value opt)" "index (opt_value opt) \<le> 4"
  defines "C \<equiv> clamp fp_less (Fin (of_int (sint v))) (val_num (opt_min opt)) (val_num (opt_max opt))"
  shows "\<exists>x. update_numeric_value_n_status f (NInt64 v) opt
            = Inr (opt\<lparr>opt_value := x, status := fst C\<rparr>)
          \<and> val_num x = snd C \<and> index x = index (opt_value opt)
          \<and> (fst C = ClampedMin \<longrightarrow> x = opt_min opt)
          \<and> (fst C = ClampedMax \<longrightarrow> x = opt_max opt)"
proof (cases "opt_value opt")
  case (VInt32 w)
  with assms(1) obtain mn mx where "opt_min opt = VInt32 mn" "opt_max opt = VInt32 mx"
    by (cases "opt_min opt"; cases "opt_max opt") (simp_all add: wf_opt_def)
  with VInt32 show ?thesis
    unfolding C_def by (rule update_int32_kind)
next
  case (VUInt32 w)
  with assms(1) obtain mn mx where "opt_min opt = VUInt32 mn" "opt_max opt = VUInt32 mx"
    by (cases "opt_min opt"; cases "opt_max opt") (simp_all add: wf_opt_def)
  with VUInt32 show ?thesis
    unfolding C_def by (rule update_uint32_kind)
next
  case (VInt64 w)
  with assms(1) obtain mn mx where "opt_min opt = VInt64 mn" "opt_max opt = VInt64 mx"
    by (cases "opt_min opt"; cases "opt_max opt") (simp_all add: wf_opt_def)
  with VInt64 show ?thesis
    unfolding C_def by (rule update_int64_kind)
qed (use assms(2,3) in simp_all)

lemma update_floating_kind:
  fixes v :: fp
  assumes "wf_opt opt" "5 \<le> index (opt_value opt)"
  defines "C \<equiv> clamp fp_less v (val_num (opt_min opt)) (val_num (opt_max opt))"
  shows "\<exists>x. update_numeric_value_n_status f (NDouble v) opt
            = Inr (opt\<lparr>opt_value := x, status := fst C\<rparr>)
          \<and> val_num x = (if index (opt_value opt) = 5 then f (snd C) else snd C)
          \<and> index x = index (opt_value opt)
          \<and> (index (opt_value opt) = 5 \<longrightarrow> x = VFloat (f (snd C)))
          \<and> (index (opt_value opt) \<noteq> 5 \<longrightarrow> x = VDouble (snd C))"
proof (cases "opt_value opt")
  case (VFloat w)
  with assms(1) obtain mn mx where b: "opt_min opt = VFloat mn" "opt_max opt = VFloat mx"
    by (cases "opt_min opt"; cases "opt_max opt") (simp_all add: wf_opt_def)
  have "update_numeric_value_n_status f (NDouble v) opt
      = Inr (opt\<lparr>opt_value := VFloat (f (snd C)), status := fst C\<rparr>)"
    by (simp add: update_numeric_value_n_status_def VFloat b C_def split: prod.splits)
  then show ?thesis
    by (simp add: VFloat)
next
  case (VDouble w)
  with assms(1) obtain mn mx where b: "opt_min opt = VDouble mn" "opt_max opt = VDouble mx"
    by (cases "opt_min opt"; cases "opt_max opt") (simp_all add: wf_opt_def)
  have "update_numeric_value_n_status f (NDouble v) opt
      = Inr (opt\<lparr>opt_value := VDouble (snd C), status := fst C\<rparr>)"
    by (simp add: update_numeric_value_n_status_def VDouble b C_def split: prod.splits)
  then show ?thesis
    by (simp add: VDouble)
qed (use assms(2) in simp_all)

lemma strtoll_empty: "strtoll [] b = (0, 0)"
  by (simp add: strtoll_def)

lemma Parse_numeric_attempt:
  assumes "2 \<le> index (opt_value opt)"
    and "match_point opt (args p) i"
    and "i + 1 < length (args p)"
  shows "Parse pf p opt =
      map_sum id
        (\<lambda>opt1. (status opt1,
           p\<lparr>args := (args p)[i := (True, snd (args p ! i)),
                               i + 1 := (True, snd (args p ! (i + 1)))]\<rparr>,
           opt1))
        (if index (opt_value opt) \<le> 4
         then deal_integer pf
           (opt\<lparr>matched_name := (if name opt = snd (args p ! i) then Name else AltName)\<rparr>)
           (snd (args p ! (i + 1)))
         else deal_floating pf
           (opt\<lparr>matched_name := (if name opt = snd (args p ! i) then Name else AltName)\<rparr>)
           (snd (args p ! (i + 1))))"
proof -
  from assms(2) have nm: "name_matches opt (snd (args p ! i))"
    by (simp add: match_point_def)
  let ?o = "opt\<lparr>matched_name := (if name opt = snd (args p ! i) then Name else AltName)\<rparr>"
  let ?t = "snd (args p ! (i + 1))"
  have eq: "Parse pf p opt = map_sum id returned (Parse_matched pf p ?o i)"
    using Parse_match [OF assms(2)] matched_at_eq [OF nm] by simp
  have m: "Parse_matched pf p ?o i =
      map_sum id (Pair (mark (i + 1) (mark i p)))
        (if index (opt_value opt) \<le> 4 then deal_integer pf ?o ?t else deal_floating pf ?o ?t)"
    using assms(1,3) by (simp add: Parse_matched_def Let_def)
  show ?thesis
    unfolding eq m
    by (simp add: sum.map_comp comp_def returned_def mark_mark cong: sum.map_cong)
qed

text \<open>A value of an integer kind that stands for 0 is the 0 of that kind.\<close>

lemma integer_zero_unique:
  assumes "val_num x = Fin 0" and "index x = index y"
    and "2 \<le> index y" and "index y \<le> 4"
  shows "x = zero_of_kind y"
  using assms
  by (cases x; cases y) (simp_all add: signed_eq_0_iff unsigned_eq_0_iff)

text \<open>
  C9. An integer descriptor whose match point is followed by the empty string:
  \<^verbatim>\<open>strtoll\<close> converts nothing, returns 0 and leaves \<^verbatim>\<open>s_end\<close> at the start, which is the
  end of the string as well, so the attempt does not return \<^verbatim>\<open>ValueInvalid\<close>: it clamps 0
  against the bounds. When 0 is below the lower bound the status is \<^verbatim>\<open>ClampedMin\<close> and the
  lower bound is stored; otherwise, when 0 is above the upper bound, the status is
  \<^verbatim>\<open>ClampedMax\<close> and the upper bound is stored; otherwise the status is \<^verbatim>\<open>Parsed\<close> and the
  0 of the kind of the descriptor is stored. Both tokens are marked and nothing else
  changes but the name that matched.
\<close>

theorem empty_value_token_is_zero:
  assumes "wf_opt opt"
    and "2 \<le> index (opt_value opt)" and "index (opt_value opt) \<le> 4"
    and "match_point opt (args p) i"
    and "i + 1 < length (args p)"
    and "snd (args p ! (i + 1)) = []"
  shows "strtoll [] (base opt) = (0, 0)
       \<and> Parse pf p opt =
           Inr (if fp_less (Fin 0) (val_num (opt_min opt)) then ClampedMin
                else if fp_less (val_num (opt_max opt)) (Fin 0) then ClampedMax
                else Parsed,
                p\<lparr>args := (args p)[i := (True, snd (args p ! i)), i + 1 := (True, [])]\<rparr>,
                opt\<lparr>matched_name := (if name opt = snd (args p ! i) then Name else AltName),
                    opt_value :=
                      (if fp_less (Fin 0) (val_num (opt_min opt)) then opt_min opt
                       else if fp_less (val_num (opt_max opt)) (Fin 0) then opt_max opt
                       else zero_of_kind (opt_value opt)),
                    status :=
                      (if fp_less (Fin 0) (val_num (opt_min opt)) then ClampedMin
                       else if fp_less (val_num (opt_max opt)) (Fin 0) then ClampedMax
                       else Parsed)\<rparr>)"
proof -
  let ?o = "opt\<lparr>matched_name := (if name opt = snd (args p ! i) then Name else AltName)\<rparr>"
  let ?mn = "val_num (opt_min opt)" and ?mx = "val_num (opt_max opt)"
  let ?C = "clamp fp_less (Fin 0) ?mn ?mx"
  let ?S = "if fp_less (Fin 0) ?mn then ClampedMin
            else if fp_less ?mx (Fin 0) then ClampedMax else Parsed"
  let ?X = "if fp_less (Fin 0) ?mn then opt_min opt
            else if fp_less ?mx (Fin 0) then opt_max opt else zero_of_kind (opt_value opt)"
  have wf: "wf_opt ?o" and k: "2 \<le> index (opt_value ?o)" "index (opt_value ?o) \<le> 4"
    using assms(1-3) by (simp_all add: wf_opt_def)
  from update_integer_kind [OF wf k, of "to_float pf" 0]
  obtain x where u: "update_numeric_value_n_status (to_float pf) (NInt64 0) ?o
      = Inr (?o\<lparr>opt_value := x, status := fst ?C\<rparr>)"
    and x: "val_num x = snd ?C" "index x = index (opt_value opt)"
      "fst ?C = ClampedMin \<longrightarrow> x = opt_min opt" "fst ?C = ClampedMax \<longrightarrow> x = opt_max opt"
    by auto
  have S: "fst ?C = ?S"
    by (simp add: clamp_def)
  have X: "x = ?X"
  proof (cases "fp_less (Fin 0) ?mn")
    case True
    with x(3) show ?thesis by (simp add: clamp_def)
  next
    case False
    show ?thesis
    proof (cases "fp_less ?mx (Fin 0)")
      case True
      with False x(4) show ?thesis by (simp add: clamp_def)
    next
      case ge: False
      with False x(1) have "val_num x = Fin 0" by (simp add: clamp_def)
      from integer_zero_unique [OF this x(2) assms(2,3)] False ge show ?thesis by simp
    qed
  qed
  have d: "deal_integer pf ?o [] = Inr (?o\<lparr>opt_value := ?X, status := ?S\<rparr>)"
    using u by (simp only: deal_integer_def strtoll_empty S X [symmetric]) simp
  have "Parse pf p opt =
      Inr (?S,
           p\<lparr>args := (args p)[i := (True, snd (args p ! i)), i + 1 := (True, [])]\<rparr>,
           ?o\<lparr>opt_value := ?X, status := ?S\<rparr>)"
    unfolding Parse_numeric_attempt [OF assms(2,4,5)]
    using assms(3,6) d by simp
  then show ?thesis
    by (simp add: strtoll_empty)
qed


theorem empty_value_token_is_zero_witness:
  "wf_opt (Option_default (VInt32 7) ''-e'' [])
   \<and> match_point (Option_default (VInt32 7) ''-e'' [])
       [(True, ''prog''), (False, ''-e''), (False, [])] 1
   \<and> Parse example_platform
       \<lparr>args = [(True, ''prog''), (False, ''-e''), (False, [])], exec_name = ''prog''\<rparr>
       (Option_default (VInt32 7) ''-e'' [])
     = Inr (Parsed,
        \<lparr>args = [(True, ''prog''), (True, ''-e''), (True, [])], exec_name = ''prog''\<rparr>,
        (Option_default (VInt32 7) ''-e'' [])
          \<lparr>matched_name := Name, opt_value := VInt32 0, status := Parsed\<rparr>)
   \<and> wf_opt (Option_range (VUInt32 150) (VUInt32 100) (VUInt32 200) ''-j'' ''--uint32_j'')
   \<and> Parse example_platform
       \<lparr>args = [(True, ''prog''), (False, ''-j''), (False, [])], exec_name = ''prog''\<rparr>
       (Option_range (VUInt32 150) (VUInt32 100) (VUInt32 200) ''-j'' ''--uint32_j'')
     = Inr (ClampedMin,
        \<lparr>args = [(True, ''prog''), (True, ''-j''), (True, [])], exec_name = ''prog''\<rparr>,
        (Option_range (VUInt32 150) (VUInt32 100) (VUInt32 200) ''-j'' ''--uint32_j'')
          \<lparr>matched_name := Name, opt_value := VUInt32 100, status := ClampedMin\<rparr>)
   \<and> wf_opt (Option_range (VInt64 (- 20)) (VInt64 (- 50)) (VInt64 (- 10)) ''--int64_k'' [])
   \<and> Parse example_platform
       \<lparr>args = [(True, ''prog''), (False, ''--int64_k''), (False, [])], exec_name = ''prog''\<rparr>
       (Option_range (VInt64 (- 20)) (VInt64 (- 50)) (VInt64 (- 10)) ''--int64_k'' [])
     = Inr (ClampedMax,
        \<lparr>args = [(True, ''prog''), (True, ''--int64_k''), (True, [])], exec_name = ''prog''\<rparr>,
        (Option_range (VInt64 (- 20)) (VInt64 (- 50)) (VInt64 (- 10)) ''--int64_k'' [])
          \<lparr>matched_name := Name, opt_value := VInt64 (- 10), status := ClampedMax\<rparr>)"
proof -
  let ?e = "Option_default (VInt32 7) ''-e'' []"
  let ?pe = "\<lparr>args = [(True, ''prog''), (False, ''-e''), (False, [])], exec_name = ''prog''\<rparr>"
  let ?j = "Option_range (VUInt32 150) (VUInt32 100) (VUInt32 200) ''-j'' ''--uint32_j''"
  let ?pj = "\<lparr>args = [(True, ''prog''), (False, ''-j''), (False, [])], exec_name = ''prog''\<rparr>"
  let ?k = "Option_range (VInt64 (- 20)) (VInt64 (- 50)) (VInt64 (- 10)) ''--int64_k'' []"
  let ?pk = "\<lparr>args = [(True, ''prog''), (False, ''--int64_k''), (False, [])], exec_name = ''prog''\<rparr>"
  have we: "wf_opt ?e" and ke: "2 \<le> index (opt_value ?e)" "index (opt_value ?e) \<le> 4"
    by (simp_all add: wf_opt_def Option_default_def)
  have me: "match_point ?e (args ?pe) 1"
    by (simp add: match_point_def name_matches_def Option_default_def)
  have wj: "wf_opt ?j" and kj: "2 \<le> index (opt_value ?j)" "index (opt_value ?j) \<le> 4"
    by (simp_all add: wf_opt_def Option_range_def)
  have mj: "match_point ?j (args ?pj) 1"
    by (simp add: match_point_def name_matches_def Option_range_def)
  have wk: "wf_opt ?k" and kk: "2 \<le> index (opt_value ?k)" "index (opt_value ?k) \<le> 4"
    by (simp_all add: wf_opt_def Option_range_def)
  have mk: "match_point ?k (args ?pk) 1"
    by (simp add: match_point_def name_matches_def Option_range_def)
  have a: "Parse example_platform ?pe ?e
     = Inr (Parsed,
        \<lparr>args = [(True, ''prog''), (True, ''-e''), (True, [])], exec_name = ''prog''\<rparr>,
        ?e\<lparr>matched_name := Name, opt_value := VInt32 0, status := Parsed\<rparr>)"
    using empty_value_token_is_zero [OF we ke me, of example_platform]
    by (simp add: Option_default_def)
  have b: "Parse example_platform ?pj ?j
     = Inr (ClampedMin,
        \<lparr>args = [(True, ''prog''), (True, ''-j''), (True, [])], exec_name = ''prog''\<rparr>,
        ?j\<lparr>matched_name := Name, opt_value := VUInt32 100, status := ClampedMin\<rparr>)"
    using empty_value_token_is_zero [OF wj kj mj, of example_platform]
    by (simp add: Option_range_def)
  have c: "Parse example_platform ?pk ?k
     = Inr (ClampedMax,
        \<lparr>args = [(True, ''prog''), (True, ''--int64_k''), (True, [])], exec_name = ''prog''\<rparr>,
        ?k\<lparr>matched_name := Name, opt_value := VInt64 (- 10), status := ClampedMax\<rparr>)"
    using empty_value_token_is_zero [OF wk kk mk, of example_platform]
    by (simp add: Option_range_def)
  from we me a wj b wk c show ?thesis
    by simp
qed

text \<open>
  C2, as the code has it. A numeric descriptor with bounds in order, whose match point is
  followed by a token that converts to the number \<open>v\<close>: the attempt returns, the stored
  value is between the bounds, and the status is \<^verbatim>\<open>ClampedMin\<close> exactly when \<open>v\<close> is below
  the lower bound, \<^verbatim>\<open>ClampedMax\<close> exactly when \<open>v\<close> is above the upper bound and \<^verbatim>\<open>Parsed\<close>
  exactly when \<open>v\<close> is between the bounds, the bounds themselves included. The stored
  value is the lower bound under \<^verbatim>\<open>ClampedMin\<close>, the upper bound under \<^verbatim>\<open>ClampedMax\<close>, and
  \<open>v\<close> under \<^verbatim>\<open>Parsed\<close>, converted to \<^verbatim>\<open>float\<close> for a descriptor of that kind. For that
  kind the conversion to \<^verbatim>\<open>float\<close> is taken to be monotone and to leave the two bounds,
  which are \<^verbatim>\<open>float\<close> values, as they are.
\<close>

theorem numeric_attempt_clamps:
  assumes "wf_opt opt"
    and "2 \<le> index (opt_value opt)"
    and "match_point opt (args p) i"
    and "i + 1 < length (args p)"
    and "converted pf opt (snd (args p ! (i + 1))) = Some v"
    and "fp_le (val_num (opt_min opt)) (val_num (opt_max opt))"
    and "index (opt_value opt) = 5 \<longrightarrow>
           (\<forall>x y. fp_le x y \<longrightarrow> fp_le (to_float pf x) (to_float pf y))
           \<and> to_float pf (val_num (opt_min opt)) = val_num (opt_min opt)
           \<and> to_float pf (val_num (opt_max opt)) = val_num (opt_max opt)"
  shows "\<exists>p1 opt1. Parse pf p opt = Inr (status opt1, p1, opt1)
       \<and> fp_le (val_num (opt_min opt)) (val_num (opt_value opt1))
       \<and> fp_le (val_num (opt_value opt1)) (val_num (opt_max opt))
       \<and> (status opt1 = ClampedMin \<longleftrightarrow> fp_less v (val_num (opt_min opt)))
       \<and> (status opt1 = ClampedMax \<longleftrightarrow> fp_less (val_num (opt_max opt)) v)
       \<and> (status opt1 = Parsed \<longleftrightarrow>
            fp_le (val_num (opt_min opt)) v \<and> fp_le v (val_num (opt_max opt)))
       \<and> (status opt1 = ClampedMin \<longrightarrow> opt_value opt1 = opt_min opt)
       \<and> (status opt1 = ClampedMax \<longrightarrow> opt_value opt1 = opt_max opt)
       \<and> (status opt1 = Parsed \<longrightarrow>
            val_num (opt_value opt1)
              = (if index (opt_value opt) = 5 then to_float pf v else v))"
proof -
  let ?o = "opt\<lparr>matched_name := (if name opt = snd (args p ! i) then Name else AltName)\<rparr>"
  let ?t = "snd (args p ! (i + 1))"
  let ?mn = "val_num (opt_min opt)" and ?mx = "val_num (opt_max opt)"
  let ?C = "clamp fp_less v ?mn ?mx"
  let ?p1 = "p\<lparr>args := (args p)[i := (True, snd (args p ! i)), i + 1 := (True, ?t)]\<rparr>"
  have wf: "wf_opt ?o" using assms(1) by (simp add: wf_opt_def)
  have P: "Parse pf p opt = map_sum id (\<lambda>opt1. (status opt1, ?p1, opt1))
      (if index (opt_value opt) \<le> 4 then deal_integer pf ?o ?t else deal_floating pf ?o ?t)"
    by (rule Parse_numeric_attempt [OF assms(2-4)])
  have v: "v \<noteq> NaN"
    using assms(5)
    by (auto simp: converted_def isnan_def split: if_splits prod.splits)
  note c = clamp_fp [OF assms(6) v]
  have "\<exists>x. Parse pf p opt = Inr (fst ?C, ?p1, ?o\<lparr>opt_value := x, status := fst ?C\<rparr>)
      \<and> val_num x = (if index (opt_value opt) = 5 then to_float pf (snd ?C) else snd ?C)
      \<and> (fst ?C = ClampedMin \<longrightarrow> x = opt_min opt)
      \<and> (fst ?C = ClampedMax \<longrightarrow> x = opt_max opt)"
  proof (cases "index (opt_value opt) \<le> 4")
    case True
    obtain w n where s: "strtoll ?t (base opt) = (w, n)"
      by (cases "strtoll ?t (base opt)")
    with assms(5) True have n: "\<not> n < length ?t" and w: "v = Fin (of_int (sint w))"
      by (auto simp: converted_def split: if_splits)
    have k: "2 \<le> index (opt_value ?o)" "index (opt_value ?o) \<le> 4"
      using assms(2) True by simp_all
    from update_integer_kind [OF wf k, of "to_float pf" w]
    obtain x where u: "update_numeric_value_n_status (to_float pf) (NInt64 w) ?o
        = Inr (?o\<lparr>opt_value := x, status := fst ?C\<rparr>)"
      and x: "val_num x = snd ?C" "fst ?C = ClampedMin \<longrightarrow> x = opt_min opt"
        "fst ?C = ClampedMax \<longrightarrow> x = opt_max opt"
      unfolding w by auto
    have "deal_integer pf ?o ?t = Inr (?o\<lparr>opt_value := x, status := fst ?C\<rparr>)"
      using s n u by (simp add: deal_integer_def)
    with True x show ?thesis
      by (intro exI [of _ x]) (simp add: P)
  next
    case False
    then have k: "5 \<le> index (opt_value ?o)" by simp
    obtain w n where s: "strtod pf ?t = (w, n)"
      by (cases "strtod pf ?t")
    with assms(5) False have n: "\<not> (n < length ?t \<or> isnan w)" and w: "w = v"
      by (auto simp: converted_def split: if_splits)
    from update_floating_kind [OF wf k, of "to_float pf" v]
    obtain x where u: "update_numeric_value_n_status (to_float pf) (NDouble v) ?o
        = Inr (?o\<lparr>opt_value := x, status := fst ?C\<rparr>)"
      and x: "val_num x = (if index (opt_value opt) = 5 then to_float pf (snd ?C) else snd ?C)"
        "index (opt_value opt) = 5 \<longrightarrow> x = VFloat (to_float pf (snd ?C))"
        "index (opt_value opt) \<noteq> 5 \<longrightarrow> x = VDouble (snd ?C)"
      by auto
    have d: "deal_floating pf ?o ?t = Inr (?o\<lparr>opt_value := x, status := fst ?C\<rparr>)"
      using s n u w by (simp add: deal_floating_def)
    have mn: "x = opt_min opt" if st: "fst ?C = ClampedMin"
    proof (cases "opt_value opt")
      case (VFloat y)
      with assms(1) obtain a where a: "opt_min opt = VFloat a"
        by (cases "opt_min opt") (simp_all add: wf_opt_def)
      with VFloat assms(7) x(2) c(6) [OF st] show ?thesis by simp
    next
      case (VDouble y)
      with assms(1) obtain a where a: "opt_min opt = VDouble a"
        by (cases "opt_min opt") (simp_all add: wf_opt_def)
      with VDouble x(3) c(6) [OF st] show ?thesis by simp
    qed (use False in simp_all)
    have mx: "x = opt_max opt" if st: "fst ?C = ClampedMax"
    proof (cases "opt_value opt")
      case (VFloat y)
      with assms(1) obtain a where a: "opt_max opt = VFloat a"
        by (cases "opt_max opt") (simp_all add: wf_opt_def)
      with VFloat assms(7) x(2) c(7) [OF st] show ?thesis by simp
    next
      case (VDouble y)
      with assms(1) obtain a where a: "opt_max opt = VDouble a"
        by (cases "opt_max opt") (simp_all add: wf_opt_def)
      with VDouble x(3) c(7) [OF st] show ?thesis by simp
    qed (use False in simp_all)
    from False d x(1) mn mx show ?thesis
      by (intro exI [of _ x]) (simp add: P)
  qed
  then obtain x where r: "Parse pf p opt = Inr (fst ?C, ?p1, ?o\<lparr>opt_value := x, status := fst ?C\<rparr>)"
    and x: "val_num x = (if index (opt_value opt) = 5 then to_float pf (snd ?C) else snd ?C)"
    and mn: "fst ?C = ClampedMin \<longrightarrow> x = opt_min opt"
    and mx: "fst ?C = ClampedMax \<longrightarrow> x = opt_max opt"
    by blast
  have lo: "fp_le ?mn (val_num x)" and hi: "fp_le (val_num x) ?mx"
  proof -
    show "fp_le ?mn (val_num x)"
    proof (cases "index (opt_value opt) = 5")
      case True
      with assms(7) c(1) have "fp_le (to_float pf ?mn) (to_float pf (snd ?C))" by blast
      with True assms(7) x show ?thesis by simp
    next
      case False
      with x c(1) show ?thesis by simp
    qed
    show "fp_le (val_num x) ?mx"
    proof (cases "index (opt_value opt) = 5")
      case True
      with assms(7) c(2) have "fp_le (to_float pf (snd ?C)) (to_float pf ?mx)" by blast
      with True assms(7) x show ?thesis by simp
    next
      case False
      with x c(2) show ?thesis by simp
    qed
  qed
  have pv: "val_num x = (if index (opt_value opt) = 5 then to_float pf v else v)"
    if "fst ?C = Parsed"
    using x c(8) [OF that] by simp
  show ?thesis
    by (intro exI [of _ ?p1] exI [of _ "?o\<lparr>opt_value := x, status := fst ?C\<rparr>"])
      (use r lo hi mn mx pv c(3,4,5) in simp)
qed


theorem numeric_attempt_clamps_witness:
  "wf_opt (Option_range (VFloat (Fin 0)) (VFloat (Fin (- 10))) (VFloat (Fin 100)) ''--float_m'' [])
   \<and> match_point
       (Option_range (VFloat (Fin 0)) (VFloat (Fin (- 10))) (VFloat (Fin 100)) ''--float_m'' [])
       [(True, ''prog''), (False, ''--float_m''), (False, ''250'')] 1
   \<and> converted example_platform
       (Option_range (VFloat (Fin 0)) (VFloat (Fin (- 10))) (VFloat (Fin 100)) ''--float_m'' [])
       ''250'' = Some (Fin 250)
   \<and> fp_le (Fin (- 10)) (Fin 100)
   \<and> to_float example_platform (Fin (- 10)) = Fin (- 10)
   \<and> to_float example_platform (Fin 100) = Fin 100
   \<and> (\<exists>p1 opt1.
        Parse example_platform
          \<lparr>args = [(True, ''prog''), (False, ''--float_m''), (False, ''250'')],
           exec_name = ''prog''\<rparr>
          (Option_range (VFloat (Fin 0)) (VFloat (Fin (- 10))) (VFloat (Fin 100)) ''--float_m'' [])
        = Inr (status opt1, p1, opt1)
        \<and> status opt1 = ClampedMax \<and> opt_value opt1 = VFloat (Fin 100))"
proof -
  let ?opt = "Option_range (VFloat (Fin 0)) (VFloat (Fin (- 10))) (VFloat (Fin 100)) ''--float_m'' []"
  let ?p = "\<lparr>args = [(True, ''prog''), (False, ''--float_m''), (False, ''250'')],
           exec_name = ''prog''\<rparr>"
  have wf: "wf_opt ?opt" and k: "2 \<le> index (opt_value ?opt)"
    by (simp_all add: wf_opt_def Option_range_def)
  have m: "match_point ?opt (args ?p) 1"
    by (simp add: match_point_def name_matches_def Option_range_def)
  have nx: "1 + 1 < length (args ?p)"
    by simp
  have cv: "converted example_platform ?opt (snd (args ?p ! (1 + 1))) = Some (Fin 250)"
    by (simp add: converted_def Option_range_def example_platform_def example_strtod_def isnan_def)
  have b: "fp_le (val_num (opt_min ?opt)) (val_num (opt_max ?opt))"
    by (simp add: Option_range_def fp_le_def)
  have f: "index (opt_value ?opt) = 5 \<longrightarrow>
      (\<forall>x y. fp_le x y \<longrightarrow> fp_le (to_float example_platform x) (to_float example_platform y))
      \<and> to_float example_platform (val_num (opt_min ?opt)) = val_num (opt_min ?opt)
      \<and> to_float example_platform (val_num (opt_max ?opt)) = val_num (opt_max ?opt)"
    by (simp add: example_platform_def)
  have mnmx: "opt_min ?opt = VFloat (Fin (- 10))" "opt_max ?opt = VFloat (Fin 100)"
    by (simp_all add: Option_range_def)
  from numeric_attempt_clamps [OF wf k m nx cv b f]
  obtain p1 opt1 where r: "Parse example_platform ?p ?opt = Inr (status opt1, p1, opt1)"
    and mx: "status opt1 = ClampedMax \<longleftrightarrow> fp_less (val_num (opt_max ?opt)) (Fin 250)"
    and st: "status opt1 = ClampedMax \<longrightarrow> opt_value opt1 = opt_max ?opt"
    by blast
  from mx have "status opt1 = ClampedMax"
    by (simp add: mnmx)
  with r st have "\<exists>p1 opt1. Parse example_platform ?p ?opt = Inr (status opt1, p1, opt1)
      \<and> status opt1 = ClampedMax \<and> opt_value opt1 = VFloat (Fin 100)"
    by (auto simp: mnmx)
  with wf m cv b show ?thesis
    by (simp add: mnmx example_platform_def)
qed

lemma strtoll_0: "strtoll ''0'' 10 = (0, 1)"
  by (simp add: strtoll_def isspace_def digit_of_def saturate_def)

theorem stored_min_with_Parsed_counterexample:
  "Parse example_platform
     \<lparr>args = [(True, ''prog''), (False, ''-g''), (False, ''0'')], exec_name = ''prog''\<rparr>
     (Option_range (VInt32 50) (VInt32 0) (VInt32 100) ''-g'' ''--int32_g'')
   = Inr (Parsed,
      \<lparr>args = [(True, ''prog''), (True, ''-g''), (True, ''0'')], exec_name = ''prog''\<rparr>,
      (Option_range (VInt32 50) (VInt32 0) (VInt32 100) ''-g'' ''--int32_g'')
        \<lparr>matched_name := Name, opt_value := VInt32 0, status := Parsed\<rparr>)
   \<and> opt_min ((Option_range (VInt32 50) (VInt32 0) (VInt32 100) ''-g'' ''--int32_g'')
        \<lparr>matched_name := Name, opt_value := VInt32 0, status := Parsed\<rparr>) = VInt32 0
   \<and> Parsed \<noteq> ClampedMin"
proof -
  let ?opt = "Option_range (VInt32 50) (VInt32 0) (VInt32 100) ''-g'' ''--int32_g''"
  let ?p = "\<lparr>args = [(True, ''prog''), (False, ''-g''), (False, ''0'')], exec_name = ''prog''\<rparr>"
  have k: "2 \<le> index (opt_value ?opt)"
    by (simp add: Option_range_def)
  have m: "match_point ?opt (args ?p) 1"
    by (simp add: match_point_def name_matches_def Option_range_def)
  have nx: "1 + 1 < length (args ?p)"
    by simp
  have d: "deal_integer example_platform (?opt\<lparr>matched_name := Name\<rparr>) ''0''
      = Inr (?opt\<lparr>matched_name := Name, opt_value := VInt32 0, status := Parsed\<rparr>)"
    by (simp add: deal_integer_def Option_range_def strtoll_0
        update_numeric_value_n_status_def clamp_def)
  show ?thesis
    unfolding Parse_numeric_attempt [OF k m nx]
    using d by (simp add: Option_range_def)
qed

subsection \<open>The token of the executable name\<close>

text \<open>The descriptor that the body of the loop leaves depends on the next token only.\<close>

lemma Parse_matched_next_token:
  assumes "(i + 1 < length (args q)) = (i + 1 < length (args p))"
    and "i + 1 < length (args p) \<Longrightarrow> snd (args q ! (i + 1)) = snd (args p ! (i + 1))"
  shows "map_sum id snd (Parse_matched pf q opt i) = map_sum id snd (Parse_matched pf p opt i)"
  using assms
  by (cases "i + 1 < length (args p)")
    (simp_all add: Parse_matched_def Let_def sum.map_comp comp_def)

text \<open>
  C10. The scan starts at index 0, the token of the executable name, which the constructor
  marks: when the text of token 0 is one of the names of a descriptor, token 0 is the match
  point and the body of the loop runs there. What the attempt leaves in the descriptor then
  depends on the first two tokens only, and no later occurrence of the name is read.
\<close>

theorem token_0_is_scanned:
  assumes "args p \<noteq> []" and "name_matches opt (snd (args p ! 0))"
  shows "match_point opt (args p) 0
       \<and> Parse pf p opt =
           map_sum id returned
             (Parse_matched pf p
                (opt\<lparr>matched_name := (if name opt = snd (args p ! 0) then Name else AltName)\<rparr>) 0)
       \<and> (take 2 (map snd (args q)) = take 2 (map snd (args p)) \<longrightarrow>
            map_sum id (snd \<circ> snd) (Parse pf q opt) = map_sum id (snd \<circ> snd) (Parse pf p opt))
       \<and> (new_OptionParser argv = Inr p \<longrightarrow> fst (args p ! 0))"
proof -
  let ?o = "\<lambda>s. opt\<lparr>matched_name := (if name opt = s then Name else AltName)\<rparr>"
  have c: "map_sum id (snd \<circ> snd) (map_sum id returned x) = map_sum id snd x" for x
    by (cases x) (simp_all add: returned_def)
  have m: "match_point opt (args p) 0"
    using assms by (simp add: match_point_def)
  have P: "Parse pf p opt = map_sum id returned (Parse_matched pf p (?o (snd (args p ! 0))) 0)"
    using Parse_match [OF m] matched_at_eq [OF assms(2)] by simp
  have T: "map_sum id (snd \<circ> snd) (Parse pf q opt) = map_sum id (snd \<circ> snd) (Parse pf p opt)"
    if t: "take 2 (map snd (args q)) = take 2 (map snd (args p))"
  proof -
    have len: "min (length (args q)) 2 = min (length (args p)) 2"
      using arg_cong [OF t, of length] by simp
    have nth: "snd (args q ! j) = snd (args p ! j)" if "j < 2" "j < length (args p)" for j
    proof -
      from that len have jq: "j < length (args q)" by linarith
      have "take 2 (map snd (args q)) ! j = take 2 (map snd (args p)) ! j"
        by (simp only: t)
      with that jq show ?thesis by simp
    qed
    from assms(1) have "0 < length (args p)" by simp
    with len have "0 < length (args q)" by linarith
    then have q0: "args q \<noteq> []" by simp
    from assms(1) have t0: "snd (args q ! 0) = snd (args p ! 0)"
      by (intro nth) simp_all
    have mq: "match_point opt (args q) 0"
      using q0 assms(2) t0 by (simp add: match_point_def)
    have Q: "Parse pf q opt = map_sum id returned (Parse_matched pf q (?o (snd (args p ! 0))) 0)"
      using Parse_match [OF mq] matched_at_eq [OF assms(2)] t0 by simp
    have a: "(0 + 1 < length (args q)) = (0 + 1 < length (args p))"
      using len by linarith
    have b: "0 + 1 < length (args p) \<Longrightarrow> snd (args q ! (0 + 1)) = snd (args p ! (0 + 1))"
      by (intro nth) simp_all
    show ?thesis
      unfolding P Q c by (rule Parse_matched_next_token [OF a b])
  qed
  have N: "fst (args p ! 0)" if "new_OptionParser argv = Inr p"
    using that by (auto simp: new_OptionParser_def Let_def split: list.splits)
  from m P T N show ?thesis
    by blast
qed

theorem token_0_is_scanned_witness:
  "new_OptionParser [''-x'', ''one'', ''-x'', ''two'']
     = Inr \<lparr>args = [(True, ''-x''), (False, ''one''), (False, ''-x''), (False, ''two'')],
            exec_name = ''-x''\<rparr>
   \<and> name_matches (Option_default (VString []) ''-x'' [])
        (snd (args \<lparr>args = [(True, ''-x''), (False, ''one''), (False, ''-x''), (False, ''two'')],
            exec_name = ''-x''\<rparr> ! 0))
   \<and> Parse example_platform
       \<lparr>args = [(True, ''-x''), (False, ''one''), (False, ''-x''), (False, ''two'')],
        exec_name = ''-x''\<rparr>
       (Option_default (VString []) ''-x'' [])
     = Inr (Parsed,
        \<lparr>args = [(True, ''-x''), (True, ''one''), (False, ''-x''), (False, ''two'')],
         exec_name = ''-x''\<rparr>,
        (Option_default (VString []) ''-x'' [])
          \<lparr>matched_name := Name, opt_value := VString ''one'', status := Parsed\<rparr>)
   \<and> map_sum id (snd \<circ> snd)
       (Parse example_platform \<lparr>args = [(True, ''-x''), (False, ''one'')], exec_name = ''-x''\<rparr>
          (Option_default (VString []) ''-x'' []))
     = Inr ((Option_default (VString []) ''-x'' [])
          \<lparr>matched_name := Name, opt_value := VString ''one'', status := Parsed\<rparr>)"
proof -
  let ?opt = "Option_default (VString []) ''-x'' []"
  let ?p = "\<lparr>args = [(True, ''-x''), (False, ''one''), (False, ''-x''), (False, ''two'')],
        exec_name = ''-x''\<rparr>"
  let ?q = "\<lparr>args = [(True, ''-x''), (False, ''one'')], exec_name = ''-x''\<rparr>"
  have n: "new_OptionParser [''-x'', ''one'', ''-x'', ''two''] = Inr ?p"
    by (simp add: new_OptionParser_def is_merged_def get_exec_name_def)
  have ne: "args ?p \<noteq> []"
    by simp
  have nm: "name_matches ?opt (snd (args ?p ! 0))"
    by (simp add: name_matches_def Option_default_def)
  have t: "take 2 (map snd (args ?q)) = take 2 (map snd (args ?p))"
    by simp
  have e: "map_sum id returned
      (Parse_matched example_platform ?p
         (?opt\<lparr>matched_name := (if name ?opt = snd (args ?p ! 0) then Name else AltName)\<rparr>) 0)
      = Inr (Parsed,
        \<lparr>args = [(True, ''-x''), (True, ''one''), (False, ''-x''), (False, ''two'')],
         exec_name = ''-x''\<rparr>,
        ?opt\<lparr>matched_name := Name, opt_value := VString ''one'', status := Parsed\<rparr>)"
    by (simp add: Parse_matched_def returned_def mark_def Option_default_def Let_def)
  from token_0_is_scanned [OF ne nm, of example_platform ?q "[''-x'', ''one'', ''-x'', ''two'']"]
    n nm t e
  show ?thesis by simp
qed

subsection \<open>The queries on unparsed arguments\<close>

lemma first_unparsed_filter:
  "first_unparsed ts = (case filter (\<lambda>a. \<not> fst a) ts of [] \<Rightarrow> [] | a # as \<Rightarrow> snd a)"
  by (induction ts) simp_all

lemma all_unparsed_filter:
  "all_unparsed ts rtn = rtn @ map snd (filter (\<lambda>a. \<not> fst a) ts)"
  by (induction ts arbitrary: rtn) simp_all

lemma first_unparsed_skip:
  "list_all fst xs \<Longrightarrow> first_unparsed (xs @ ys) = first_unparsed ys"
  by (induction xs) simp_all

text \<open>
  C7. \<^verbatim>\<open>FirstUnparsedArg\<close> returns the text of the first token, in index order, whose
  flag is false, and the empty string when every flag is true; \<^verbatim>\<open>GetAllUnparsedArgs\<close>
  returns the texts of the tokens whose flag is false, in index order. Both are \<^verbatim>\<open>const\<close>
  member functions that touch no \<^verbatim>\<open>mutable\<close> member: as functions of the parser state
  they return a result and no new state.
\<close>

theorem unparsed_args_queries:
  "FirstUnparsedArg p = (case filter (\<lambda>a. \<not> fst a) (args p) of [] \<Rightarrow> [] | a # as \<Rightarrow> snd a)
   \<and> GetAllUnparsedArgs p = map snd (filter (\<lambda>a. \<not> fst a) (args p))
   \<and> (list_all fst (args p) \<longrightarrow> FirstUnparsedArg p = [])
   \<and> (i < length (args p) \<and> \<not> fst (args p ! i) \<and> list_all fst (take i (args p)) \<longrightarrow>
        FirstUnparsedArg p = snd (args p ! i))"
proof -
  have a: "FirstUnparsedArg p = []" if "list_all fst (args p)"
    using first_unparsed_skip [OF that, of "[]"] by (simp add: FirstUnparsedArg_def)
  have b: "FirstUnparsedArg p = snd (args p ! i)"
    if "i < length (args p)" "\<not> fst (args p ! i)" "list_all fst (take i (args p))"
  proof -
    from that(1) have "args p = take i (args p) @ args p ! i # drop (Suc i) (args p)"
      by (simp add: id_take_nth_drop)
    then have "first_unparsed (args p)
        = first_unparsed (take i (args p) @ args p ! i # drop (Suc i) (args p))"
      by simp
    also have "\<dots> = snd (args p ! i)"
      using that(2,3) by (simp add: first_unparsed_skip)
    finally show ?thesis
      by (simp add: FirstUnparsedArg_def)
  qed
  from a b show ?thesis
    by (simp add: FirstUnparsedArg_def GetAllUnparsedArgs_def first_unparsed_filter
        all_unparsed_filter)
qed

theorem unparsed_args_queries_witness:
  "FirstUnparsedArg
     \<lparr>args = [(True, ''prog''), (True, ''-a''), (False, ''--typo''), (True, ''-b''), (False, ''opps'')],
      exec_name = ''prog''\<rparr> = ''--typo''
   \<and> GetAllUnparsedArgs
     \<lparr>args = [(True, ''prog''), (True, ''-a''), (False, ''--typo''), (True, ''-b''), (False, ''opps'')],
      exec_name = ''prog''\<rparr> = [''--typo'', ''opps'']
   \<and> list_all fst [(True, ''prog''), (True, ''-a'')]
   \<and> FirstUnparsedArg \<lparr>args = [(True, ''prog''), (True, ''-a'')], exec_name = ''prog''\<rparr> = []"
proof -
  let ?p = "\<lparr>args = [(True, ''prog''), (True, ''-a''), (False, ''--typo''), (True, ''-b''), (False, ''opps'')],
      exec_name = ''prog''\<rparr>"
  let ?q = "\<lparr>args = [(True, ''prog''), (True, ''-a'')], exec_name = ''prog''\<rparr>"
  have h: "2 < length (args ?p) \<and> \<not> fst (args ?p ! 2) \<and> list_all fst (take 2 (args ?p))"
    by simp
  have g: "list_all fst (args ?q)"
    by simp
  from unparsed_args_queries [of ?p 2] h unparsed_args_queries [of ?q 0] g
  show ?thesis by simp
qed

end
